theory Spec2Isabelle
  imports Main "HOL-Library.Word" "HOL-Library.AList"
begin

section \<open>The decode engine of go-plist (unmarshal.go)\<close>

text \<open>
  The engine writes a parsed property-list node into a destination reached through Go's
  reflection. The embedding keeps the three things the code looks at: the node
  (\<open>cfValue\<close>), the destination's type (\<open>reflect.Type\<close>, here \<open>rtype\<close>) and the
  destination's content (\<open>gval\<close>). A destination is a pair of a type and a content; a
  decode returns the new content next to the error, so every write of the code is a
  change of the returned content.

  Conventions of the embedding:
  \<^item> Go's \<open>int\<close>, \<open>uint\<close> and \<open>uintptr\<close> are 64 bits wide (a 64-bit platform);
  \<^item> a \<open>float64\<close> is its 64-bit pattern and a \<open>float32\<close> its 32-bit pattern; the
    narrowing conversion is a parameter;
  \<^item> destinations are trees: two places of a destination never share memory, and types
    are finite trees (no recursive type);
  \<^item> lengths and capacities are natural numbers (they are bounded by the memory of the
    process, far below the range of a 64-bit \<open>int\<close>);
  \<^item> a panic is an outcome of its own, distinct from a returned error.
\<close>

subsection \<open>Types and kinds (package reflect)\<close>

datatype kind =
    KBool | KInt | KInt8 | KInt16 | KInt32 | KInt64
  | KUint | KUint8 | KUint16 | KUint32 | KUint64 | KUintptr
  | KFloat32 | KFloat64 | KComplex64 | KComplex128
  | KArray | KChan | KFunc | KInterface | KMap | KPtr | KSlice | KString | KStruct
  | KUnsafePointer

text \<open>The kinds whose types have no structure the engine looks into.\<close>

datatype basic =
    BBool | BInt | BInt8 | BInt16 | BInt32 | BInt64
  | BUint | BUint8 | BUint16 | BUint32 | BUint64 | BUintptr
  | BFloat32 | BFloat64 | BComplex64 | BComplex128
  | BChan | BFunc | BString | BUnsafePointer

text \<open>
  A type: a basic type with its name (\<open>int\<close>, \<open>plist.UID\<close>, a defined type), a pointer,
  slice, array, map, a struct with its name and, for each field, whether the field can be
  set and its type, and an interface with its name and its number of methods.
\<close>

datatype rtype =
    TBasic string basic
  | TPtr rtype
  | TSlice rtype
  | TArray nat rtype
  | TMap rtype rtype
  | TStruct string "(bool \<times> rtype) list"
  | TInterface string nat

fun kindOfBasic :: "basic \<Rightarrow> kind" where
  "kindOfBasic BBool = KBool"
| "kindOfBasic BInt = KInt"
| "kindOfBasic BInt8 = KInt8"
| "kindOfBasic BInt16 = KInt16"
| "kindOfBasic BInt32 = KInt32"
| "kindOfBasic BInt64 = KInt64"
| "kindOfBasic BUint = KUint"
| "kindOfBasic BUint8 = KUint8"
| "kindOfBasic BUint16 = KUint16"
| "kindOfBasic BUint32 = KUint32"
| "kindOfBasic BUint64 = KUint64"
| "kindOfBasic BUintptr = KUintptr"
| "kindOfBasic BFloat32 = KFloat32"
| "kindOfBasic BFloat64 = KFloat64"
| "kindOfBasic BComplex64 = KComplex64"
| "kindOfBasic BComplex128 = KComplex128"
| "kindOfBasic BChan = KChan"
| "kindOfBasic BFunc = KFunc"
| "kindOfBasic BString = KString"
| "kindOfBasic BUnsafePointer = KUnsafePointer"

text \<open>\<open>val.Kind()\<close>, read off the destination's type.\<close>

fun Kind :: "rtype \<Rightarrow> kind" where
  "Kind (TBasic n b) = kindOfBasic b"
| "Kind (TPtr t) = KPtr"
| "Kind (TSlice t) = KSlice"
| "Kind (TArray n t) = KArray"
| "Kind (TMap k e) = KMap"
| "Kind (TStruct n fs) = KStruct"
| "Kind (TInterface n m) = KInterface"

lemma kindOfBasic_composite [simp]:
  "kindOfBasic b \<noteq> KPtr" "kindOfBasic b \<noteq> KSlice" "kindOfBasic b \<noteq> KArray"
  "kindOfBasic b \<noteq> KMap" "kindOfBasic b \<noteq> KStruct" "kindOfBasic b \<noteq> KInterface"
  by (cases b; simp)+

text \<open>\<open>Type.Elem()\<close>, \<open>Type.Key()\<close> and \<open>Type.Len()\<close>; the engine calls them on the kinds
  that have them. The last is the field list of a struct type.\<close>

fun Elem :: "rtype \<Rightarrow> rtype" where
  "Elem (TPtr t) = t"
| "Elem (TSlice t) = t"
| "Elem (TArray n t) = t"
| "Elem (TMap k e) = e"
| "Elem t = t"

fun Key :: "rtype \<Rightarrow> rtype" where
  "Key (TMap k e) = k"
| "Key t = t"

fun Len :: "rtype \<Rightarrow> nat" where
  "Len (TArray n t) = n"
| "Len t = 0"

fun structTypeFields :: "rtype \<Rightarrow> (bool \<times> rtype) list" where
  "structTypeFields (TStruct n fs) = fs"
| "structTypeFields t = []"

text \<open>The case lists of the source: the signed and the unsigned integer kinds.\<close>

definition isIntKind :: "kind \<Rightarrow> bool" where
  "isIntKind k = (k = KInt \<or> k = KInt8 \<or> k = KInt16 \<or> k = KInt32 \<or> k = KInt64)"

definition isUintKind :: "kind \<Rightarrow> bool" where
  "isUintKind k =
     (k = KUint \<or> k = KUint8 \<or> k = KUint16 \<or> k = KUint32 \<or> k = KUint64 \<or> k = KUintptr)"

definition isFloatKind :: "kind \<Rightarrow> bool" where
  "isFloatKind k = (k = KFloat32 \<or> k = KFloat64)"

text \<open>The types the source names: \<open>uidType\<close>, \<open>stringType\<close>, \<open>timeType\<close>, and the types
  of the values the dynamic materializer builds.\<close>

definition uidType :: rtype where
  "uidType = TBasic ''plist.UID'' BUint64"

definition stringType :: rtype where
  "stringType = TBasic ''string'' BString"

definition timeType :: rtype where
  "timeType = TStruct ''time.Time'' []"

definition int64Type :: rtype where
  "int64Type = TBasic ''int64'' BInt64"

definition uint64Type :: rtype where
  "uint64Type = TBasic ''uint64'' BUint64"

definition uint8Type :: rtype where
  "uint8Type = TBasic ''uint8'' BUint8"

definition float32Type :: rtype where
  "float32Type = TBasic ''float32'' BFloat32"

definition float64Type :: rtype where
  "float64Type = TBasic ''float64'' BFloat64"

definition boolType :: rtype where
  "boolType = TBasic ''bool'' BBool"

definition emptyInterfaceType :: rtype where
  "emptyInterfaceType = TInterface ''interface {}'' 0"

subsection \<open>Document nodes (cfValue)\<close>

type_synonym gotime = int

text \<open>
  The node kinds of the source: \<open>cfString\<close>, \<open>*cfNumber{value uint64, signed bool}\<close>,
  \<open>*cfReal{value float64, wide bool}\<close>, \<open>cfBoolean\<close>, \<open>cfData\<close>, \<open>cfDate\<close>, \<open>cfUID\<close>,
  \<open>*cfArray{values}\<close> and \<open>*cfDictionary{keys, values}\<close> with its two parallel slices;
  \<open>CfNil\<close> is the nil interface value.
\<close>

datatype cfValue =
    CfNil
  | CfString string
  | CfNumber "64 word" bool
  | CfReal "64 word" bool
  | CfBoolean bool
  | CfData "8 word list"
  | CfDate gotime
  | CfUID "64 word"
  | CfArray "cfValue list"
  | CfDictionary "string list" "cfValue list"

text \<open>Modelled from the spec: the method \<open>typeName\<close> of the node types is not in the
  source file; it gives the node's kind name, \<open>string\<close> for a string node as the lax
  path of the source writes it.\<close>

fun typeName :: "cfValue \<Rightarrow> string" where
  "typeName CfNil = ''nil''"
| "typeName (CfString s) = ''string''"
| "typeName (CfNumber v sg) = ''integer''"
| "typeName (CfReal v w) = ''real''"
| "typeName (CfBoolean b) = ''boolean''"
| "typeName (CfData bs) = ''data''"
| "typeName (CfDate d) = ''date''"
| "typeName (CfUID u) = ''UID''"
| "typeName (CfArray vs) = ''array''"
| "typeName (CfDictionary ks vs) = ''dictionary''"

subsection \<open>Destination contents\<close>

text \<open>
  The content of a destination. An integer slot of any width holds its value extended to
  64 bits; a slice is its backing array from the slice's start to its capacity, and its
  length; a map is nil or its entries; an interface is nil or a value with its dynamic
  type.
\<close>

datatype gval =
    VBool bool
  | VInt "64 word"
  | VUint "64 word"
  | VFloat32 "32 word"
  | VFloat64 "64 word"
  | VString string
  | VTime gotime
  | VPtr "gval option"
  | VSlice "gval list" nat
  | VArray "gval list"
  | VMap "(gval \<times> gval) list option"
  | VStruct "gval list"
  | VIface "(rtype \<times> gval) option"
  | VOpaque

text \<open>The zero value of a type (\<open>reflect.New(t).Elem()\<close>, \<open>reflect.MakeSlice\<close>).\<close>

fun zero :: "rtype \<Rightarrow> gval"
and zeros :: "(bool \<times> rtype) list \<Rightarrow> gval list" where
  "zero (TBasic n b) =
     (if b = BBool then VBool False
      else if isIntKind (kindOfBasic b) then VInt 0
      else if isUintKind (kindOfBasic b) then VUint 0
      else if b = BFloat32 then VFloat32 0
      else if b = BFloat64 then VFloat64 0
      else if b = BString then VString []
      else VOpaque)"
| "zero (TPtr t) = VPtr None"
| "zero (TSlice t) = VSlice [] 0"
| "zero (TArray n t) = VArray (replicate n (zero t))"
| "zero (TMap k e) = VMap None"
| "zero (TStruct n fs) = (if TStruct n fs = timeType then VTime 0 else VStruct (zeros fs))"
| "zero (TInterface n m) = VIface None"
| "zeros [] = []"
| "zeros (f # fs) = zero (snd f) # zeros fs"

subsection \<open>Errors and outcomes\<close>

text \<open>
  The errors of the source: \<open>incompatibleDecodeTypeError{dest, src}\<close>, the two sizing
  errors, the key-type error, the three location tags (\<open>element %d\<close>, \<open>field %q\<close>,
  \<open>map key %q\<close>), the unsettable field, the aggregate of go-multierror, the unknown
  node type, the errors of the collaborators, and the values of run-time panics.
\<close>

datatype error =
    IncompatibleDecodeType rtype string
  | ByteArraySize nat nat
  | ArraySize nat nat
  | NonStringKey rtype
  | ElementError nat error
  | FieldError string error
  | MapKeyError string error
  | FieldNotSettable string
  | Multi "error list"
  | UnknownType string
  | External string
  | RuntimePanic string

datatype 'a outcome = Panic error | Return 'a

text \<open>\<open>multierror.Append(err, e)\<close> of go-multierror: a nil \<open>err\<close> starts a new aggregate,
  an aggregate is extended, any other error becomes the first cause; an appended aggregate
  is flattened.\<close>

definition multierror_Append :: "error option \<Rightarrow> error \<Rightarrow> error" where
  "multierror_Append err e =
     Multi ((case err of None \<Rightarrow> [] | Some (Multi es) \<Rightarrow> es | Some x \<Rightarrow> [x])
            @ (case e of Multi es \<Rightarrow> es | _ \<Rightarrow> [e]))"

subsection \<open>The collaborators that are not in the source file\<close>

text \<open>Modelled from the spec: the field descriptors of the metadata provider are not in
  the source file. A descriptor is a document key name and an accessor into the record;
  the accessor \<open>valueForWriting\<close> is the record's field at an index.\<close>

datatype fieldInfo = FieldInfo (finfo_name: string) (finfo_idx: nat)

text \<open>
  What the engine calls and the source file does not define, taken as parameters:
  whether a destination type has the custom or the textual decode hook
  (\<open>implementsInterface\<close>) and what the hook does to the destination; the parsers of the
  lax path, which return one value and so can only fail by not returning (\<open>Panic\<close>);
  \<open>time.Parse\<close> with the text layout; the conversion \<open>float32(x)\<close>; and the field
  metadata provider \<open>getTypeInfo\<close>.
\<close>

record extern =
  implementsUnmarshaler :: "rtype \<Rightarrow> bool"
  UnmarshalPlist :: "bool \<Rightarrow> cfValue \<Rightarrow> rtype \<Rightarrow> gval \<Rightarrow> (error option \<times> gval) outcome"
  implementsTextUnmarshaler :: "rtype \<Rightarrow> bool"
  UnmarshalText :: "string \<Rightarrow> rtype \<Rightarrow> gval \<Rightarrow> (error option \<times> gval) outcome"
  mustParseInt :: "string \<Rightarrow> 64 word outcome"
  mustParseUint :: "string \<Rightarrow> 64 word outcome"
  mustParseFloat :: "string \<Rightarrow> 64 word outcome"
  mustParseBool :: "string \<Rightarrow> bool outcome"
  time_Parse :: "string \<Rightarrow> error + gotime"
  float32 :: "64 word \<Rightarrow> 32 word"
  getTypeInfo :: "rtype \<Rightarrow> error + fieldInfo list"

text \<open>The decoder: its one field read by the engine.\<close>

record Decoder =
  lax :: bool

subsection \<open>Writing a slot (package reflect)\<close>

text \<open>\<open>val.SetInt(x)\<close>, \<open>val.SetUint(x)\<close> and \<open>val.SetFloat(x)\<close> convert to the slot's
  width before they store.\<close>

definition SetInt :: "kind \<Rightarrow> 64 word \<Rightarrow> gval" where
  "SetInt k x =
     VInt (if k = KInt8 then scast (ucast x :: 8 word)
           else if k = KInt16 then scast (ucast x :: 16 word)
           else if k = KInt32 then scast (ucast x :: 32 word)
           else x)"

definition SetUint :: "kind \<Rightarrow> 64 word \<Rightarrow> gval" where
  "SetUint k x =
     VUint (if k = KUint8 then ucast (ucast x :: 8 word)
            else if k = KUint16 then ucast (ucast x :: 16 word)
            else if k = KUint32 then ucast (ucast x :: 32 word)
            else x)"

definition SetFloat :: "extern \<Rightarrow> kind \<Rightarrow> 64 word \<Rightarrow> gval" where
  "SetFloat X k x = (if k = KFloat32 then VFloat32 (float32 X x) else VFloat64 x)"

text \<open>The bytes of a data node as slot contents.\<close>

definition bytesOf :: "8 word list \<Rightarrow> gval list" where
  "bytesOf bs = map (\<lambda>b. VUint (ucast b)) bs"

text \<open>Reading a container slot. A slice is read as its backing array and its length, an
  array and a struct as their elements and fields; writing back keeps the slot's shape.\<close>

definition sliceArr :: "gval \<Rightarrow> gval list" where
  "sliceArr v = (case v of VSlice arr n \<Rightarrow> arr | _ \<Rightarrow> [])"

definition sliceLen :: "gval \<Rightarrow> nat" where
  "sliceLen v = (case v of VSlice arr n \<Rightarrow> min n (length arr) | _ \<Rightarrow> 0)"

definition sliceCap :: "gval \<Rightarrow> nat" where
  "sliceCap v = length (sliceArr v)"

definition arrayElems :: "gval \<Rightarrow> gval list" where
  "arrayElems v = (case v of VArray xs \<Rightarrow> xs | _ \<Rightarrow> [])"

definition withElems :: "gval \<Rightarrow> gval list \<Rightarrow> gval" where
  "withElems v xs = (case v of VArray ys \<Rightarrow> VArray xs | _ \<Rightarrow> v)"

definition structFields :: "gval \<Rightarrow> gval list" where
  "structFields v = (case v of VStruct xs \<Rightarrow> xs | _ \<Rightarrow> [])"

definition withFields :: "gval \<Rightarrow> gval list \<Rightarrow> gval" where
  "withFields v xs = (case v of VStruct ys \<Rightarrow> VStruct xs | _ \<Rightarrow> v)"

definition mapEntries :: "gval \<Rightarrow> (gval \<times> gval) list" where
  "mapEntries v = (case v of VMap (Some m) \<Rightarrow> m | _ \<Rightarrow> [])"

text \<open>\<open>isEmptyInterface\<close>: kind Interface and no method.\<close>

definition isEmptyInterface :: "rtype \<Rightarrow> bool" where
  "isEmptyInterface t = (case t of TInterface n m \<Rightarrow> m = 0 | _ \<Rightarrow> False)"

text \<open>\<open>stringType.ConvertibleTo(k)\<close> for a map's key type \<open>k\<close>: a key type is comparable, so
  it is a string kind or an interface that \<open>string\<close> implements, which has no method.
  \<open>Convert\<close> is the converted key.\<close>

definition convertibleFromString :: "rtype \<Rightarrow> bool" where
  "convertibleFromString k = (Kind k = KString \<or> isEmptyInterface k)"

definition Convert :: "rtype \<Rightarrow> string \<Rightarrow> gval" where
  "Convert k s = (if Kind k = KString then VString s else VIface (Some (stringType, VString s)))"

subsection \<open>Lax coercion\<close>

definition unmarshalLaxString :: "extern \<Rightarrow> string \<Rightarrow> rtype \<Rightarrow> gval \<Rightarrow> (error option \<times> gval) outcome" where
  "unmarshalLaxString X s t v =
     (if isIntKind (Kind t) then
        (case mustParseInt X s of
           Panic e \<Rightarrow> Panic e
         | Return i \<Rightarrow> Return (None, SetInt (Kind t) i))
      else if isUintKind (Kind t) then
        (case mustParseUint X s of
           Panic e \<Rightarrow> Panic e
         | Return i \<Rightarrow> Return (None, SetUint (Kind t) i))
      else if isFloatKind (Kind t) then
        (case mustParseFloat X s of
           Panic e \<Rightarrow> Panic e
         | Return f \<Rightarrow> Return (None, SetFloat X (Kind t) f))
      else if Kind t = KBool then
        (case mustParseBool X s of
           Panic e \<Rightarrow> Panic e
         | Return b \<Rightarrow> Return (None, VBool b))
      else if Kind t = KStruct \<and> t = timeType then
        (case time_Parse X s of
           Inl err \<Rightarrow> Return (Some err, v)
         | Inr tm \<Rightarrow> Return (None, VTime tm))
      else Return (Some (IncompatibleDecodeType t ''string''), v))"

subsection \<open>The dynamic materializer\<close>

text \<open>
  \<open>valueInterface\<close> returns an \<open>interface{}\<close>: nil, or a value with its dynamic type.
  \<open>arrayInterface\<close> fills a fresh \<open>[]interface{}\<close> in order; \<open>dictionaryInterface\<close> walks
  the keys, reads \<open>dict.values[i]\<close> (a panic when there is no such value) and stores
  into a fresh \<open>map[string]interface{}\<close>.
\<close>

fun valueInterface :: "extern \<Rightarrow> cfValue \<Rightarrow> (rtype \<times> gval) option outcome"
and arrayInterface :: "extern \<Rightarrow> cfValue list \<Rightarrow> gval list outcome"
and dictionaryInterface ::
  "extern \<Rightarrow> string list \<Rightarrow> cfValue list \<Rightarrow> (gval \<times> gval) list \<Rightarrow> (gval \<times> gval) list outcome" where
  "valueInterface X (CfString s) = Return (Some (stringType, VString s))"
| "valueInterface X (CfNumber v sg) =
     (if sg then Return (Some (int64Type, VInt v)) else Return (Some (uint64Type, VUint v)))"
| "valueInterface X (CfReal v w) =
     (if w then Return (Some (float64Type, VFloat64 v))
      else Return (Some (float32Type, VFloat32 (float32 X v))))"
| "valueInterface X (CfBoolean b) = Return (Some (boolType, VBool b))"
| "valueInterface X (CfArray vs) =
     (case arrayInterface X vs of
        Panic e \<Rightarrow> Panic e
      | Return out \<Rightarrow> Return (Some (TSlice emptyInterfaceType, VSlice out (length out))))"
| "valueInterface X (CfDictionary ks vs) =
     (case dictionaryInterface X ks vs [] of
        Panic e \<Rightarrow> Panic e
      | Return out \<Rightarrow> Return (Some (TMap stringType emptyInterfaceType, VMap (Some out))))"
| "valueInterface X (CfData bs) =
     Return (Some (TSlice uint8Type, VSlice (bytesOf bs) (length bs)))"
| "valueInterface X (CfDate d) = Return (Some (timeType, VTime d))"
| "valueInterface X (CfUID u) = Return (Some (uidType, VUint u))"
| "valueInterface X CfNil = Return None"
| "arrayInterface X [] = Return []"
| "arrayInterface X (subv # vs) =
     (case valueInterface X subv of
        Panic e \<Rightarrow> Panic e
      | Return d \<Rightarrow>
          (case arrayInterface X vs of
             Panic e \<Rightarrow> Panic e
           | Return out \<Rightarrow> Return (VIface d # out)))"
| "dictionaryInterface X [] vs out = Return out"
| "dictionaryInterface X (k # ks) [] out = Panic (RuntimePanic ''index out of range'')"
| "dictionaryInterface X (k # ks) (subv # vs) out =
     (case valueInterface X subv of
        Panic e \<Rightarrow> Panic e
      | Return d \<Rightarrow> dictionaryInterface X ks vs (AList.update (VString k) (VIface d) out))"

subsection \<open>Slice growth\<close>

definition growSliceCap :: "nat \<Rightarrow> nat" where
  "growSliceCap cap =
     (if cap = 0 then 4
      else if cap < 1024 then cap * 2
      else cap + cap div 4)"

lemma growSliceCap_gt: "cap < growSliceCap cap"
  unfolding growSliceCap_def by (cases "cap < 1024") auto

text \<open>The loop \<open>for ncap < cnt { ncap = growSliceCap(ncap) }\<close>.\<close>

function growLoop :: "nat \<Rightarrow> nat \<Rightarrow> nat" where
  "growLoop ncap cnt = (if ncap < cnt then growLoop (growSliceCap ncap) cnt else ncap)"
  by pat_completeness auto
termination
proof (relation "measure (\<lambda>(ncap, cnt). cnt - ncap)")
  show "wf (measure (\<lambda>(ncap, cnt). cnt - ncap))" by simp
next
  fix ncap cnt :: nat
  assume "ncap < cnt"
  then show "((growSliceCap ncap, cnt), (ncap, cnt)) \<in> measure (\<lambda>(ncap, cnt). cnt - ncap)"
    using growSliceCap_gt [of ncap] by simp
qed

text \<open>
  The block \<open>Grow slice\<close> of \<open>unmarshalArray\<close>: the backing array that holds \<open>cnt\<close>
  elements. When \<open>cnt\<close> exceeds the capacity, a new array of the grown capacity is made
  (\<open>reflect.MakeSlice(val.Type(), val.Len(), ncap)\<close>, all zero) and the \<open>val.Len()\<close>
  elements are copied into it; otherwise the slice keeps its array, with whatever lies
  between its length and its capacity.
\<close>

definition growSlice :: "rtype \<Rightarrow> gval \<Rightarrow> nat \<Rightarrow> gval list" where
  "growSlice et v cnt =
     (if cnt > sliceCap v
      then take (sliceLen v) (sliceArr v)
           @ replicate (growLoop (sliceCap v) cnt - sliceLen v) (zero et)
      else sliceArr v)"

subsection \<open>The dispatch core and the container decoders\<close>

text \<open>The lookup \<open>entries\<close> of the record path: \<open>entries[k] = dict.values[i]\<close> for each
  key in order, a panic when \<open>dict.values\<close> is shorter than \<open>dict.keys\<close>.\<close>

fun entriesLoop ::
  "string list \<Rightarrow> cfValue list \<Rightarrow> (string \<times> cfValue) list \<Rightarrow> (string \<times> cfValue) list outcome" where
  "entriesLoop [] vs entries = Return entries"
| "entriesLoop (k # ks) [] entries = Panic (RuntimePanic ''index out of range'')"
| "entriesLoop (k # ks) (sval # vs) entries = entriesLoop ks vs (AList.update k sval entries)"

text \<open>The size of a lookup for the termination argument: every node in it is smaller.\<close>

definition entriesSize :: "(string \<times> cfValue) list \<Rightarrow> nat" where
  "entriesSize entries = size_list (\<lambda>e. size (snd e)) entries"

lemma entriesSize_update: "entriesSize (AList.update k v al) \<le> entriesSize al + size v + 1"
  by (induction al) (auto simp: entriesSize_def)

lemma entriesSize_loop:
  "entriesLoop ks vs acc = Return entries \<Longrightarrow> entriesSize entries \<le> entriesSize acc + size_list size vs"
proof (induction ks vs acc rule: entriesLoop.induct)
  case (1 vs entries)
  then show ?case by simp
next
  case (2 k ks entries)
  then show ?case by simp
next
  case (3 k ks sval vs acc)
  from 3 have "entriesSize entries \<le> entriesSize (AList.update k sval acc) + size_list size vs"
    by simp
  with entriesSize_update [of k sval acc] show ?case by simp
qed

lemma entriesSize_lookup: "map_of entries k = Some ent \<Longrightarrow> size ent < entriesSize entries"
  by (induction entries) (auto simp: entriesSize_def split: if_splits)

text \<open>The content a pointer leads to: its target, or a fresh zero value when it is nil
  (\<open>val.Set(reflect.New(val.Type().Elem()))\<close>, then \<open>val.Elem()\<close>).\<close>

definition ptrElem :: "rtype \<Rightarrow> gval \<Rightarrow> gval" where
  "ptrElem et v = (case v of VPtr (Some x) \<Rightarrow> x | _ \<Rightarrow> zero et)"

text \<open>The type assertions \<open>pval.(cfDate)\<close> and \<open>pval.(cfString)\<close>.\<close>

definition asDate :: "cfValue \<Rightarrow> gotime option" where
  "asDate pval = (case pval of CfDate d \<Rightarrow> Some d | _ \<Rightarrow> None)"

definition asString :: "cfValue \<Rightarrow> string option" where
  "asString pval = (case pval of CfString s \<Rightarrow> Some s | _ \<Rightarrow> None)"

text \<open>The empty-interface destination: store what the dynamic materializer returns.
  \<open>reflect.ValueOf(nil)\<close> is the zero Value, and \<open>Set\<close> panics on it.\<close>

definition setInterface :: "extern \<Rightarrow> cfValue \<Rightarrow> (error option \<times> gval) outcome" where
  "setInterface X pval =
     (case valueInterface X pval of
        Panic e \<Rightarrow> Panic e
      | Return None \<Rightarrow> Panic (RuntimePanic ''reflect: call of reflect.Value.Set on zero Value'')
      | Return (Some d) \<Rightarrow> Return (None, VIface (Some d)))"

text \<open>The cases of the type switch that do not recur: string, number, real, boolean,
  data and UID nodes. \<open>incompatibleTypeError\<close> is built from the destination's type and the
  node's kind name.\<close>

definition incompatibleTypeError :: "cfValue \<Rightarrow> rtype \<Rightarrow> error" where
  "incompatibleTypeError pval t = IncompatibleDecodeType t (typeName pval)"

definition unmarshalScalar ::
  "extern \<Rightarrow> 'a Decoder_scheme \<Rightarrow> cfValue \<Rightarrow> rtype \<Rightarrow> gval \<Rightarrow> (error option \<times> gval) outcome" where
  "unmarshalScalar X p pval t v =
     (case pval of
        CfString s \<Rightarrow>
          if Kind t = KString then Return (None, VString s)
          else if lax p then unmarshalLaxString X s t v
          else Return (Some (incompatibleTypeError pval t), v)
      | CfNumber val sg \<Rightarrow>
          if isIntKind (Kind t) then Return (None, SetInt (Kind t) val)
          else if isUintKind (Kind t) then Return (None, SetUint (Kind t) val)
          else Return (Some (incompatibleTypeError pval t), v)
      | CfReal val w \<Rightarrow>
          if Kind t = KFloat32 \<or> Kind t = KFloat64 then Return (None, SetFloat X (Kind t) val)
          else Return (Some (incompatibleTypeError pval t), v)
      | CfBoolean b \<Rightarrow>
          if Kind t = KBool then Return (None, VBool b)
          else Return (Some (incompatibleTypeError pval t), v)
      | CfData b \<Rightarrow>
          if Kind t \<noteq> KSlice \<and> Kind t \<noteq> KArray then Return (Some (incompatibleTypeError pval t), v)
          else if Kind (Elem t) \<noteq> KUint8 then Return (Some (incompatibleTypeError pval t), v)
          else if Kind t = KSlice then Return (None, VSlice (bytesOf b) (length b))
          else if Len t < length b then Return (Some (ByteArraySize (length b) (Len t)), v)
          else if Elem t \<noteq> uint8Type then Panic (RuntimePanic ''reflect.Copy: type mismatch'')
          else Return (None, withElems v (bytesOf b @ drop (length b) (arrayElems v)))
      | CfUID u \<Rightarrow>
          if t = uidType then Return (None, VUint u)
          else if isIntKind (Kind t) then Return (None, SetInt (Kind t) u)
          else if isUintKind (Kind t) then Return (None, SetUint (Kind t) u)
          else Return (Some (incompatibleTypeError pval t), v)
      | _ \<Rightarrow> Return (Some (UnknownType (typeName pval)), v))"

text \<open>
  \<open>unmarshal\<close> is the dispatch core; \<open>unmarshalArray\<close> and \<open>unmarshalDictionary\<close> are the
  container decoders, and \<open>unmarshalElems\<close>, \<open>unmarshalFields\<close> and \<open>unmarshalPairs\<close> are
  their loops over the elements, the field descriptors and the key/value pairs, with the
  loop variables \<open>n\<close> and \<open>resultErr\<close> as arguments. The loop \<open>for val.Kind() == reflect.Ptr\<close>
  is the recursion of \<open>unmarshal\<close> on a pointer type.
\<close>

function unmarshal ::
  "extern \<Rightarrow> 'a Decoder_scheme \<Rightarrow> cfValue \<Rightarrow> rtype \<Rightarrow> gval \<Rightarrow> (error option \<times> gval) outcome"
and unmarshalArray ::
  "extern \<Rightarrow> 'a Decoder_scheme \<Rightarrow> cfValue list \<Rightarrow> rtype \<Rightarrow> gval \<Rightarrow> (error option \<times> gval) outcome"
and unmarshalElems ::
  "extern \<Rightarrow> 'a Decoder_scheme \<Rightarrow> cfValue list \<Rightarrow> rtype \<Rightarrow> gval list \<Rightarrow> nat \<Rightarrow> error option
     \<Rightarrow> (error option \<times> gval list) outcome"
and unmarshalDictionary ::
  "extern \<Rightarrow> 'a Decoder_scheme \<Rightarrow> string list \<Rightarrow> cfValue list \<Rightarrow> rtype \<Rightarrow> gval
     \<Rightarrow> (error option \<times> gval) outcome"
and unmarshalFields ::
  "extern \<Rightarrow> 'a Decoder_scheme \<Rightarrow> (string \<times> cfValue) list \<Rightarrow> fieldInfo list
     \<Rightarrow> (bool \<times> rtype) list \<Rightarrow> gval list \<Rightarrow> error option \<Rightarrow> (error option \<times> gval list) outcome"
and unmarshalPairs ::
  "extern \<Rightarrow> 'a Decoder_scheme \<Rightarrow> string list \<Rightarrow> cfValue list \<Rightarrow> rtype \<Rightarrow> rtype
     \<Rightarrow> (gval \<times> gval) list \<Rightarrow> error option \<Rightarrow> (error option \<times> (gval \<times> gval) list) outcome"
where
  "unmarshal X p pval t v =
     (if pval = CfNil then Return (None, v)
      else if Kind t = KPtr then
        (case unmarshal X p pval (Elem t) (ptrElem (Elem t) v) of
           Panic e \<Rightarrow> Panic e
         | Return r \<Rightarrow> Return (fst r, VPtr (Some (snd r))))
      else if isEmptyInterface t then setInterface X pval
      else if implementsUnmarshaler X t then UnmarshalPlist X (lax p) pval t v
      else case asDate pval of
        Some date \<Rightarrow>
          if t = timeType then Return (None, VTime date)
          else Return (Some (incompatibleTypeError pval t), v)
      | None \<Rightarrow>
          if t \<noteq> timeType \<and> implementsTextUnmarshaler X t then
            (case asString pval of
               Some str \<Rightarrow> UnmarshalText X str t v
             | None \<Rightarrow> Return (Some (incompatibleTypeError pval t), v))
          else case pval of
            CfArray values \<Rightarrow> unmarshalArray X p values t v
          | CfDictionary keys values \<Rightarrow> unmarshalDictionary X p keys values t v
          | _ \<Rightarrow> unmarshalScalar X p pval t v)"
| "unmarshalArray X p values t v =
     (if Kind t = KSlice then
        (let cnt = length values + sliceLen v;
             arr = growSlice (Elem t) v cnt
         in case unmarshalElems X p values (Elem t) (take cnt arr) (sliceLen v) None of
              Panic e \<Rightarrow> Panic e
            | Return r \<Rightarrow> Return (fst r, VSlice (snd r @ drop cnt arr) cnt))
      else if Kind t = KArray then
        (if length values > Len t then Return (Some (ArraySize (length values) (Len t)), v)
         else case unmarshalElems X p values (Elem t) (arrayElems v) 0 None of
                Panic e \<Rightarrow> Panic e
              | Return r \<Rightarrow> Return (fst r, withElems v (snd r)))
      else Return (Some (IncompatibleDecodeType t (typeName (CfArray values))), v))"
| "unmarshalElems X p [] et xs n resultErr = Return (resultErr, xs)"
| "unmarshalElems X p (sval # values) et xs n resultErr =
     (if length xs \<le> n then Panic (RuntimePanic ''reflect: index out of range'')
      else case unmarshal X p sval et (xs ! n) of
             Panic e \<Rightarrow> Panic e
           | Return r \<Rightarrow>
               unmarshalElems X p values et (xs[n := snd r]) (n + 1)
                 (case fst r of
                    None \<Rightarrow> resultErr
                  | Some err \<Rightarrow> Some (multierror_Append resultErr (ElementError n err))))"
| "unmarshalDictionary X p keys values t v =
     (if Kind t = KStruct then
        (case getTypeInfo X t of
           Inl err \<Rightarrow> Return (Some err, v)
         | Inr tfields \<Rightarrow>
             (case entriesLoop keys values [] of
                Panic e \<Rightarrow> Panic e
              | Return entries \<Rightarrow>
                  (case unmarshalFields X p entries tfields (structTypeFields t) (structFields v) None of
                     Panic e \<Rightarrow> Panic e
                   | Return r \<Rightarrow> Return (fst r, withFields v (snd r)))))
      else if Kind t = KMap then
        (if \<not> convertibleFromString (Key t)
         then Return (Some (NonStringKey (Key t)), VMap (Some (mapEntries v)))
         else case unmarshalPairs X p keys values (Key t) (Elem t) (mapEntries v) None of
                Panic e \<Rightarrow> Panic e
              | Return r \<Rightarrow> Return (fst r, VMap (Some (snd r))))
      else Return (Some (IncompatibleDecodeType t (typeName (CfDictionary keys values))), v))"
| "unmarshalFields X p entries [] fts xs resultErr = Return (resultErr, xs)"
| "unmarshalFields X p entries (finfo # tfields) fts xs resultErr =
     (case map_of entries (finfo_name finfo) of
        None \<Rightarrow> unmarshalFields X p entries tfields fts xs resultErr
      | Some ent \<Rightarrow>
          if length fts \<le> finfo_idx finfo \<or> length xs \<le> finfo_idx finfo
          then Panic (RuntimePanic ''reflect: Field index out of range'')
          else if fst (fts ! finfo_idx finfo) then
            (case unmarshal X p ent (snd (fts ! finfo_idx finfo)) (xs ! finfo_idx finfo) of
               Panic e \<Rightarrow> Panic e
             | Return r \<Rightarrow>
                 unmarshalFields X p entries tfields fts (xs[finfo_idx finfo := snd r])
                   (case fst r of
                      None \<Rightarrow> resultErr
                    | Some err \<Rightarrow> Some (multierror_Append resultErr (FieldError (finfo_name finfo) err))))
          else unmarshalFields X p entries tfields fts xs
                 (Some (multierror_Append resultErr (FieldNotSettable (finfo_name finfo)))))"
| "unmarshalPairs X p [] values kt et m resultErr = Return (resultErr, m)"
| "unmarshalPairs X p (k # keys) [] kt et m resultErr = Panic (RuntimePanic ''index out of range'')"
| "unmarshalPairs X p (k # keys) (sval # values) kt et m resultErr =
     (case unmarshal X p sval et (zero et) of
        Panic e \<Rightarrow> Panic e
      | Return r \<Rightarrow>
          (case fst r of
             Some err \<Rightarrow>
               unmarshalPairs X p keys values kt et m
                 (Some (multierror_Append resultErr (MapKeyError k err)))
           | None \<Rightarrow> unmarshalPairs X p keys values kt et (AList.update (Convert kt k) (snd r) m) resultErr))"
  by pat_completeness auto


text \<open>Termination: every call goes to a smaller node, to the same node with a smaller
  pointer type, or to a shorter list of field descriptors.\<close>

lemma Kind_ptr_size: "Kind t = KPtr \<Longrightarrow> size (Elem t) < size t"
  by (cases t) auto

termination unmarshal
  apply (relation "measures [
     case_sum (case_sum (\<lambda>(X,p,pval,t,v). 2 * size pval)
       (case_sum (\<lambda>(X,p,vs,t,v). 2 * size_list size vs + 1)
       (\<lambda>(X,p,vs,et,xs,n,e). 2 * size_list size vs)))
       (case_sum (\<lambda>(X,p,ks,vs,t,v). 2 * size_list size vs + 1)
       (case_sum (\<lambda>(X,p,entries,fs,fts,xs,e). 2 * entriesSize entries)
                 (\<lambda>(X,p,ks,vs,kt,et,m,e). 2 * size_list size vs))),
     case_sum (case_sum (\<lambda>(X,p,pval,t,v). size t)
       (case_sum (\<lambda>(X,p,vs,t,v). 0)
       (\<lambda>(X,p,vs,et,xs,n,e). 0)))
       (case_sum (\<lambda>(X,p,ks,vs,t,v). 0)
       (case_sum (\<lambda>(X,p,entries,fs,fts,xs,e). length fs)
                 (\<lambda>(X,p,ks,vs,kt,et,m,e). 0)))]")
  subgoal by simp
  subgoal by (simp add: Kind_ptr_size)
  subgoal by simp
  subgoal by simp
  subgoal by (simp (no_asm))
  subgoal by (simp (no_asm))
  subgoal by (simp (no_asm))
  subgoal by (simp (no_asm))
  subgoal for X p ks vs t v b x2
    using entriesSize_loop [of ks vs "[]" x2] by (simp add: entriesSize_def)
  subgoal by (simp (no_asm))
  subgoal by (simp (no_asm))
  subgoal for X p entries finfo fs fts xs resultErr ent
    using entriesSize_lookup [of entries "finfo_name finfo" ent] by simp
  subgoal by (simp (no_asm))
  subgoal by (simp (no_asm))
  subgoal by (simp (no_asm))
  subgoal by (simp (no_asm))
  subgoal by (simp (no_asm))
  done

text \<open>The defining equations are used one at a time, never as rewrite rules.\<close>

declare unmarshal.simps [simp del] unmarshalArray.simps [simp del]
  unmarshalDictionary.simps [simp del]


subsection \<open>An environment for the concrete examples\<close>

text \<open>Modelled from the spec: the parsers \<open>mustParseInt\<close>, \<open>mustParseUint\<close> and
  \<open>mustParseBool\<close> are not in the source file. They parse a base-10 integer (signed or
  unsigned, 64 bits) and the conventional boolean literals as package strconv does, and
  return the one value their call sites use; a text that does not parse makes them panic
  with the parse error.\<close>

definition digitOf :: "char \<Rightarrow> nat option" where
  "digitOf c =
     (let n = (of_char c :: nat)
      in if 48 \<le> n \<and> n \<le> 57 then Some (n - 48) else None)"

fun parseDigits :: "string \<Rightarrow> nat \<Rightarrow> nat option" where
  "parseDigits [] acc = Some acc"
| "parseDigits (c # cs) acc =
     (case digitOf c of None \<Rightarrow> None | Some d \<Rightarrow> parseDigits cs (10 * acc + d))"

definition parseUint10 :: "string \<Rightarrow> 64 word outcome" where
  "parseUint10 s =
     (if s = [] then Panic (External ''strconv.ParseUint: invalid syntax'')
      else case parseDigits s 0 of
        None \<Rightarrow> Panic (External ''strconv.ParseUint: invalid syntax'')
      | Some n \<Rightarrow>
          if n < 2 ^ 64 then Return (of_nat n)
          else Panic (External ''strconv.ParseUint: value out of range''))"

definition parseInt10 :: "string \<Rightarrow> 64 word outcome" where
  "parseInt10 s =
     (let neg = (s \<noteq> [] \<and> hd s = CHR ''-'');
          ds = (if s \<noteq> [] \<and> (hd s = CHR ''-'' \<or> hd s = CHR ''+'') then tl s else s)
      in if ds = [] then Panic (External ''strconv.ParseInt: invalid syntax'')
         else case parseDigits ds 0 of
           None \<Rightarrow> Panic (External ''strconv.ParseInt: invalid syntax'')
         | Some n \<Rightarrow>
             if neg then
               (if n \<le> 2 ^ 63 then Return (- of_nat n)
                else Panic (External ''strconv.ParseInt: value out of range''))
             else
               (if n < 2 ^ 63 then Return (of_nat n)
                else Panic (External ''strconv.ParseInt: value out of range'')))"

definition parseBoolLit :: "string \<Rightarrow> bool outcome" where
  "parseBoolLit s =
     (if s \<in> set [''1'', ''t'', ''T'', ''TRUE'', ''true'', ''True''] then Return True
      else if s \<in> set [''0'', ''f'', ''F'', ''FALSE'', ''false'', ''False''] then Return False
      else Panic (External ''strconv.ParseBool: invalid syntax''))"

text \<open>
  The environment of the examples: no destination type has a decode hook; the integer and
  boolean parsers are the ones above; floating-point texts and timestamps are opaque to
  the embedding, so their parsers reject every text and the narrowing conversion is fixed
  arbitrarily (no example reads them); the metadata provider knows one record type,
  \<open>personType\<close>, with the keys \<open>Name\<close> and \<open>Age\<close>.
\<close>

definition personType :: rtype where
  "personType = TStruct ''Person'' [(True, stringType), (True, int64Type)]"

definition exampleExtern :: extern where
  "exampleExtern =
     \<lparr> implementsUnmarshaler = (\<lambda>t. False),
       UnmarshalPlist = (\<lambda>l pval t v. Return (None, v)),
       implementsTextUnmarshaler = (\<lambda>t. False),
       UnmarshalText = (\<lambda>s t v. Return (None, v)),
       mustParseInt = parseInt10,
       mustParseUint = parseUint10,
       mustParseFloat = (\<lambda>s. Panic (External ''strconv.ParseFloat: invalid syntax'')),
       mustParseBool = parseBoolLit,
       time_Parse = (\<lambda>s. Inl (External ''parsing time'')),
       float32 = (\<lambda>x. 0),
       getTypeInfo = (\<lambda>t. if t = personType
                            then Inr [FieldInfo ''Name'' 0, FieldInfo ''Age'' 1]
                            else Inr []) \<rparr>"

definition strict :: Decoder where
  "strict = \<lparr> lax = False \<rparr>"

definition laxDecoder :: Decoder where
  "laxDecoder = \<lparr> lax = True \<rparr>"

section \<open>Properties\<close>

subsection \<open>The dispatch core on a destination without indirection or hook\<close>

lemma isEmptyInterface_Kind: "isEmptyInterface t \<Longrightarrow> Kind t = KInterface"
  by (cases t) (auto simp: isEmptyInterface_def)

lemma unmarshal_nil: "unmarshal X p CfNil t v = Return (None, v)"
  by (simp add: unmarshal.simps)

text \<open>Past the nil check, the pointer loop, the empty interface, the custom hook, the
  date case and the textual hook, the type switch is reached.\<close>

lemma unmarshal_switch:
  assumes "pval \<noteq> CfNil" "Kind t \<noteq> KPtr" "\<not> isEmptyInterface t"
    and "\<not> implementsUnmarshaler X t" "asDate pval = None"
    and "t = timeType \<or> \<not> implementsTextUnmarshaler X t"
  shows "unmarshal X p pval t v =
           (case pval of
              CfArray vs \<Rightarrow> unmarshalArray X p vs t v
            | CfDictionary ks vs \<Rightarrow> unmarshalDictionary X p ks vs t v
            | _ \<Rightarrow> unmarshalScalar X p pval t v)"
  using assms by (auto simp: unmarshal.simps [of X p pval t v])

subsection \<open>Sequence decode into a fixed-size array that is too small\<close>

text \<open>
  C5. An Array node with \<open>N\<close> elements decoded into a fixed-size array of capacity \<open>C\<close>
  with \<open>N > C\<close> returns the sizing error and writes nothing: the destination's content is
  returned as it was. This holds of the sequence decoder, and of the dispatch core for a
  destination without a decode hook.
\<close>

theorem unmarshalArray_too_small:
  assumes "Kind t = KArray" and "Len t < length vs"
  shows "unmarshalArray X p vs t v = Return (Some (ArraySize (length vs) (Len t)), v)
       \<and> (\<not> implementsUnmarshaler X t \<and> \<not> implementsTextUnmarshaler X t
            \<longrightarrow> unmarshal X p (CfArray vs) t v = Return (Some (ArraySize (length vs) (Len t)), v))"
proof -
  have arr: "unmarshalArray X p vs t v = Return (Some (ArraySize (length vs) (Len t)), v)"
    using assms by (simp add: unmarshalArray.simps)
  have ne: "\<not> isEmptyInterface t"
    using assms(1) isEmptyInterface_Kind [of t] by auto
  have "unmarshal X p (CfArray vs) t v = unmarshalArray X p vs t v"
    if "\<not> implementsUnmarshaler X t" "\<not> implementsTextUnmarshaler X t"
    using that assms(1) ne unmarshal_switch [of "CfArray vs" t X p v]
    by (simp add: asDate_def)
  with arr show ?thesis by simp
qed

theorem unmarshalArray_too_small_witness:
  "unmarshalArray exampleExtern strict [CfNumber 1 True, CfNumber 2 True, CfNumber 3 True]
     (TArray 2 int64Type) (VArray [VInt 7, VInt 8])
   = Return (Some (ArraySize 3 2), VArray [VInt 7, VInt 8])
   \<and> unmarshal exampleExtern strict (CfArray [CfNumber 1 True, CfNumber 2 True, CfNumber 3 True])
     (TArray 2 int64Type) (VArray [VInt 7, VInt 8])
   = Return (Some (ArraySize 3 2), VArray [VInt 7, VInt 8])"
  using unmarshalArray_too_small [of "TArray 2 int64Type"
      "[CfNumber 1 True, CfNumber 2 True, CfNumber 3 True]" exampleExtern strict
      "VArray [VInt 7, VInt 8]"]
  by (simp add: exampleExtern_def)

subsection \<open>A nil map with a key type that is not a string\<close>

text \<open>
  C9. A Dictionary node decoded into a nil map whose key type is not convertible from
  \<open>string\<close>: the engine installs an empty map in the destination first and then returns
  the key-type error, so the destination has changed from nil to an empty map although
  the call fails.
\<close>

theorem unmarshalDictionary_nil_map_bad_key:
  assumes "Kind t = KMap" and "\<not> convertibleFromString (Key t)"
  shows "unmarshalDictionary X p ks vs t (VMap None)
         = Return (Some (NonStringKey (Key t)), VMap (Some []))"
  using assms by (simp add: unmarshalDictionary.simps mapEntries_def)

theorem unmarshalDictionary_nil_map_bad_key_witness:
  "unmarshalDictionary exampleExtern strict [''a''] [CfNumber 1 True]
     (TMap int64Type stringType) (VMap None)
   = Return (Some (NonStringKey int64Type), VMap (Some []))"
  using unmarshalDictionary_nil_map_bad_key [of "TMap int64Type stringType" exampleExtern strict
      "[''a'']" "[CfNumber 1 True]"]
  by (simp add: convertibleFromString_def isEmptyInterface_def int64Type_def)


subsection \<open>The dynamic materializer\<close>

text \<open>
  A node is well formed when each dictionary in it has as many values as keys: the two
  slices of \<open>cfDictionary\<close> are parallel, and the document model of the specification is
  a sequence of pairs.
\<close>

fun wfNode :: "cfValue \<Rightarrow> bool" where
  "wfNode (CfArray vs) = (\<forall>v \<in> set vs. wfNode v)"
| "wfNode (CfDictionary ks vs) = (length ks = length vs \<and> (\<forall>v \<in> set vs. wfNode v))"
| "wfNode pval = True"

text \<open>
  The mapping of the specification, written after its words: \<open>toDynamic\<close> gives for each
  node kind the dynamic value, nil for an absent node; an array becomes the sequence of the
  materialized elements in order, a dictionary the string-keyed map of the materialized
  values. \<open>mapOfPairs\<close> is that map: the pairs are stored in order, so that a key holds
  the value of its last pair (lemma \<open>mapOfPairs_lookup\<close>).
\<close>

definition mapOfPairs :: "(string \<times> gval) list \<Rightarrow> (gval \<times> gval) list \<Rightarrow> (gval \<times> gval) list" where
  "mapOfPairs ps m = foldl (\<lambda>m kd. AList.update (VString (fst kd)) (snd kd) m) m ps"

fun toDynamic :: "extern \<Rightarrow> cfValue \<Rightarrow> (rtype \<times> gval) option" where
  "toDynamic X CfNil = None"
| "toDynamic X (CfString s) = Some (stringType, VString s)"
| "toDynamic X (CfNumber v sg) = (if sg then Some (int64Type, VInt v) else Some (uint64Type, VUint v))"
| "toDynamic X (CfReal v w) =
     (if w then Some (float64Type, VFloat64 v) else Some (float32Type, VFloat32 (float32 X v)))"
| "toDynamic X (CfBoolean b) = Some (boolType, VBool b)"
| "toDynamic X (CfData bs) = Some (TSlice uint8Type, VSlice (bytesOf bs) (length bs))"
| "toDynamic X (CfDate d) = Some (timeType, VTime d)"
| "toDynamic X (CfUID u) = Some (uidType, VUint u)"
| "toDynamic X (CfArray vs) =
     Some (TSlice emptyInterfaceType, VSlice (map (\<lambda>v. VIface (toDynamic X v)) vs) (length vs))"
| "toDynamic X (CfDictionary ks vs) =
     Some (TMap stringType emptyInterfaceType,
           VMap (Some (mapOfPairs (zip ks (map (\<lambda>v. VIface (toDynamic X v)) vs)) [])))"

lemma mapOfPairs_lookup:
  "map_of (mapOfPairs ps m) (VString k) =
     (case map_of (rev ps) k of Some d \<Rightarrow> Some d | None \<Rightarrow> map_of m (VString k))"
  unfolding mapOfPairs_def
  by (induction ps arbitrary: m) (auto simp: update_conv' split: option.splits)

lemma mapOfPairs_keys: "fst ` set (mapOfPairs ps m) = fst ` set m \<union> VString ` fst ` set ps"
  unfolding mapOfPairs_def
  by (induction ps arbitrary: m) (auto simp: dom_update image_iff)

lemma mapOfPairs_distinct: "distinct (map fst m) \<Longrightarrow> distinct (map fst (mapOfPairs ps m))"
  unfolding mapOfPairs_def
  by (induction ps arbitrary: m) (auto simp: distinct_update)

lemma interface_refines:
  "wfNode pval \<Longrightarrow> valueInterface X pval = Return (toDynamic X pval)"
  "(\<forall>v \<in> set vs. wfNode v) \<Longrightarrow>
     arrayInterface X vs = Return (map (\<lambda>v. VIface (toDynamic X v)) vs)"
  "length ks \<le> length vs' \<Longrightarrow> (\<forall>v \<in> set vs'. wfNode v) \<Longrightarrow>
     dictionaryInterface X ks vs' out =
       Return (mapOfPairs (zip ks (map (\<lambda>v. VIface (toDynamic X v)) vs')) out)"
proof (induction X pval and X vs and X ks vs' out
    rule: valueInterface_arrayInterface_dictionaryInterface.induct)
qed (auto simp: mapOfPairs_def)

text \<open>
  C8. The dynamic materializer returns a value for every well-formed node, never an error
  and never a panic, and the value is the one of the specification's mapping: a string
  gives a \<open>string\<close>, a number an \<open>int64\<close> when its signed flag is set and a \<open>uint64\<close>
  otherwise, a real a \<open>float64\<close> when its wide flag is set and a \<open>float32\<close> otherwise, a
  boolean a \<open>bool\<close>, data a \<open>[]uint8\<close>, a date a \<open>time.Time\<close>, a UID a \<open>plist.UID\<close>, an
  array the \<open>[]interface{}\<close> of its materialized elements in order, a dictionary the
  \<open>map[string]interface{}\<close> of its materialized values, and the absent node nil. The result
  depends on the node alone (and on the conversion \<open>float32\<close>).
\<close>

theorem valueInterface_toDynamic:
  assumes "wfNode pval"
  shows "valueInterface X pval = Return (toDynamic X pval)"
  using assms by (rule interface_refines(1))

theorem valueInterface_toDynamic_witness:
  "valueInterface exampleExtern
     (CfDictionary [''a'', ''b'', ''a'']
        [CfNumber 1 True, CfArray [CfString ''x'', CfNil, CfNumber 5 False], CfBoolean True])
   = Return (Some (TMap stringType emptyInterfaceType,
       VMap (Some
         [(VString ''a'', VIface (Some (boolType, VBool True))),
          (VString ''b'', VIface (Some (TSlice emptyInterfaceType,
             VSlice [VIface (Some (stringType, VString ''x'')), VIface None,
                     VIface (Some (uint64Type, VUint 5))] 3)))])))"
  using valueInterface_toDynamic [of
      "CfDictionary [''a'', ''b'', ''a'']
        [CfNumber 1 True, CfArray [CfString ''x'', CfNil, CfNumber 5 False], CfBoolean True]"
      exampleExtern]
  by (simp add: mapOfPairs_def)


subsection \<open>Scalar nodes and destination kinds\<close>

text \<open>
  The compatibility table of the specification's structural dispatch, written after its
  words: a string goes to a text slot, a number to a signed or unsigned integer slot, a
  real to a float slot of either precision, a boolean to a bool slot, data to a byte
  sequence (a slice or an array of elements of kind \<open>uint8\<close>), a UID to the UID type or to
  an integer slot.
\<close>

definition isScalarNode :: "cfValue \<Rightarrow> bool" where
  "isScalarNode pval =
     (case pval of
        CfString s \<Rightarrow> True | CfNumber n sg \<Rightarrow> True | CfReal r w \<Rightarrow> True
      | CfBoolean b \<Rightarrow> True | CfData bs \<Rightarrow> True | CfUID u \<Rightarrow> True | _ \<Rightarrow> False)"

definition compatible :: "cfValue \<Rightarrow> rtype \<Rightarrow> bool" where
  "compatible pval t =
     (case pval of
        CfString s \<Rightarrow> Kind t = KString
      | CfNumber n sg \<Rightarrow> isIntKind (Kind t) \<or> isUintKind (Kind t)
      | CfReal r w \<Rightarrow> isFloatKind (Kind t)
      | CfBoolean b \<Rightarrow> Kind t = KBool
      | CfData bs \<Rightarrow> (Kind t = KSlice \<or> Kind t = KArray) \<and> Kind (Elem t) = KUint8
      | CfUID u \<Rightarrow> t = uidType \<or> isIntKind (Kind t) \<or> isUintKind (Kind t)
      | _ \<Rightarrow> False)"

text \<open>A decode succeeds when it returns without an error.\<close>

definition succeeds :: "(error option \<times> gval) outcome \<Rightarrow> bool" where
  "succeeds r = (case r of Return (None, v) \<Rightarrow> True | _ \<Rightarrow> False)"

text \<open>
  C1, as the code has it. For a scalar node and a destination that reaches the type
  switch (no pointer, not the empty interface, no decode hook): a pair in the table
  succeeds, except for data into a fixed-size array, where a payload longer than the
  array returns the sizing error (not a type mismatch) and a payload that fits into an
  array of \<open>uint8\<close> succeeds; and, with lax mode off, a pair outside the table returns the
  type-mismatch error that carries the destination's type and the node's kind name, and
  leaves the destination as it was.
\<close>

theorem scalar_dispatch_table:
  assumes "isScalarNode pval" and "Kind t \<noteq> KPtr" and "\<not> isEmptyInterface t"
    and "\<not> implementsUnmarshaler X t" and "t = timeType \<or> \<not> implementsTextUnmarshaler X t"
  shows "(\<not> lax p \<and> \<not> compatible pval t \<longrightarrow>
            unmarshal X p pval t v = Return (Some (IncompatibleDecodeType t (typeName pval)), v))
       \<and> (compatible pval t \<and> \<not> (\<exists>bs. pval = CfData bs \<and> Kind t = KArray) \<longrightarrow>
            succeeds (unmarshal X p pval t v))
       \<and> (\<forall>bs. pval = CfData bs \<and> compatible pval t \<and> Kind t = KArray \<and> Len t < length bs \<longrightarrow>
            unmarshal X p pval t v = Return (Some (ByteArraySize (length bs) (Len t)), v))
       \<and> (\<forall>bs. pval = CfData bs \<and> Kind t = KArray \<and> Elem t = uint8Type \<and> length bs \<le> Len t \<longrightarrow>
            succeeds (unmarshal X p pval t v))"
proof -
  have sw: "unmarshal X p pval t v = unmarshalScalar X p pval t v"
    using assms unmarshal_switch [of pval t X p v]
    by (auto simp: asDate_def isScalarNode_def split: cfValue.splits)
  show ?thesis
    using assms(1) sw
    by (cases pval)
      (auto simp: unmarshalScalar_def compatible_def succeeds_def isScalarNode_def
        incompatibleTypeError_def isFloatKind_def uidType_def isUintKind_def uint8Type_def)
qed

theorem scalar_dispatch_table_witness:
  "unmarshal exampleExtern strict (CfString ''x'') int64Type (VInt 0)
     = Return (Some (IncompatibleDecodeType int64Type ''string''), VInt 0)
   \<and> succeeds (unmarshal exampleExtern strict (CfNumber 5 True) int64Type (VInt 0))
   \<and> succeeds (unmarshal exampleExtern strict (CfData [1, 2, 3]) (TArray 5 uint8Type)
        (VArray [VUint 0, VUint 0, VUint 0, VUint 0, VUint 0]))"
  using scalar_dispatch_table [of "CfString ''x''" int64Type exampleExtern strict "VInt 0"]
    scalar_dispatch_table [of "CfNumber 5 True" int64Type exampleExtern strict "VInt 0"]
    scalar_dispatch_table [of "CfData [1, 2, 3]" "TArray 5 uint8Type" exampleExtern strict
      "VArray [VUint 0, VUint 0, VUint 0, VUint 0, VUint 0]"]
  by (simp add: isScalarNode_def compatible_def int64Type_def isEmptyInterface_def
      exampleExtern_def strict_def isIntKind_def)

text \<open>
  The claim as the specification states it (a decode succeeds if and only if the pair is
  in the table) fails both ways: data of three bytes into an array of two bytes is in the
  table and returns the sizing error; a string into an empty interface is outside the
  table and succeeds.
\<close>

theorem scalar_table_counterexample:
  "compatible (CfData [1, 2, 3]) (TArray 2 uint8Type)
   \<and> unmarshal exampleExtern strict (CfData [1, 2, 3]) (TArray 2 uint8Type)
        (VArray [VUint 0, VUint 0])
     = Return (Some (ByteArraySize 3 2), VArray [VUint 0, VUint 0])
   \<and> \<not> compatible (CfString ''x'') emptyInterfaceType
   \<and> unmarshal exampleExtern strict (CfString ''x'') emptyInterfaceType (VIface None)
     = Return (None, VIface (Some (stringType, VString ''x'')))"
  by (simp add: compatible_def uint8Type_def emptyInterfaceType_def unmarshal.simps
      isEmptyInterface_def exampleExtern_def asDate_def unmarshalScalar_def setInterface_def)

subsection \<open>Lax coercion: a text that does not parse\<close>

text \<open>The destination kinds whose lax coercion goes through a parser.\<close>

definition isLaxScalarKind :: "kind \<Rightarrow> bool" where
  "isLaxScalarKind k = (isIntKind k \<or> isUintKind k \<or> isFloatKind k \<or> k = KBool)"

lemma lax_kind_facts:
  assumes "isLaxScalarKind (Kind t)"
  shows "Kind t \<noteq> KPtr" "\<not> isEmptyInterface t" "Kind t \<noteq> KString" "t \<noteq> timeType"
  using assms isEmptyInterface_Kind [of t]
  by (auto simp: isLaxScalarKind_def isIntKind_def isUintKind_def isFloatKind_def timeType_def)

text \<open>
  In lax mode a String node that targets an integer, float or bool destination (without a
  hook) is handed to the parser of the destination's kind. Whatever the parser does, the
  decode call does exactly this: when the parser returns a value, the value is written and
  nil is returned; when the parser panics, the call panics with the same value. So no
  error is ever returned on this path.
\<close>

lemma unmarshal_lax_scalar:
  assumes "isLaxScalarKind (Kind t)" and "lax p"
    and "\<not> implementsUnmarshaler X t" and "\<not> implementsTextUnmarshaler X t"
  shows "unmarshal X p (CfString s) t v =
           (if isIntKind (Kind t) then
              (case mustParseInt X s of
                 Panic e \<Rightarrow> Panic e | Return i \<Rightarrow> Return (None, SetInt (Kind t) i))
            else if isUintKind (Kind t) then
              (case mustParseUint X s of
                 Panic e \<Rightarrow> Panic e | Return i \<Rightarrow> Return (None, SetUint (Kind t) i))
            else if isFloatKind (Kind t) then
              (case mustParseFloat X s of
                 Panic e \<Rightarrow> Panic e | Return f \<Rightarrow> Return (None, SetFloat X (Kind t) f))
            else
              (case mustParseBool X s of
                 Panic e \<Rightarrow> Panic e | Return b \<Rightarrow> Return (None, VBool b)))"
proof -
  have sw: "unmarshal X p (CfString s) t v = unmarshalLaxString X s t v"
    using assms lax_kind_facts [OF assms(1)] unmarshal_switch [of "CfString s" t X p v]
    by (simp add: asDate_def unmarshalScalar_def)
  show ?thesis
    using assms(1) by (auto simp: sw unmarshalLaxString_def isLaxScalarKind_def)
qed

lemma unmarshal_lax_scalar_no_error:
  assumes "isLaxScalarKind (Kind t)" and "lax p"
    and "\<not> implementsUnmarshaler X t" and "\<not> implementsTextUnmarshaler X t"
  shows "unmarshal X p (CfString s) t v \<noteq> Return (Some e, v')"
  unfolding unmarshal_lax_scalar [OF assms] by (simp split: outcome.splits)

text \<open>
  C4. In lax mode, a String node whose text does not parse should come back from the
  decode call as an error. The code does not do so for integer, float and bool
  destinations: the text \<open>abc\<close> into an \<open>int\<close> makes the call panic with the parse error,
  where the timestamp branch of the same function returns its parse error (the text
  \<open>abc\<close> into a \<open>time.Time\<close>), and a text that parses is written with a nil error.
\<close>

theorem lax_int_parse_failure_not_returned:
  "unmarshal exampleExtern laxDecoder (CfString ''abc'') (TBasic ''int'' BInt) (VInt 0)
     = Panic (External ''strconv.ParseInt: invalid syntax'')
   \<and> unmarshal exampleExtern laxDecoder (CfString ''abc'') timeType (VTime 0)
     = Return (Some (External ''parsing time''), VTime 0)
   \<and> unmarshal exampleExtern laxDecoder (CfString ''42'') (TBasic ''int'' BInt) (VInt 0)
     = Return (None, VInt 42)"
proof (intro conjI)
  show "unmarshal exampleExtern laxDecoder (CfString ''abc'') (TBasic ''int'' BInt) (VInt 0)
     = Panic (External ''strconv.ParseInt: invalid syntax'')"
    by code_simp
  show "unmarshal exampleExtern laxDecoder (CfString ''abc'') timeType (VTime 0)
     = Return (Some (External ''parsing time''), VTime 0)"
    by code_simp
  show "unmarshal exampleExtern laxDecoder (CfString ''42'') (TBasic ''int'' BInt) (VInt 0)
     = Return (None, VInt 42)"
    by (simp add: unmarshal.simps unmarshalScalar_def unmarshalLaxString_def exampleExtern_def
        laxDecoder_def isEmptyInterface_def asDate_def isIntKind_def parseInt10_def digitOf_def
        SetInt_def)
qed

subsection \<open>Sequence decode: the element loop\<close>

text \<open>
  The decode of the \<open>i\<close>-th source element into its slot: \<open>n\<close> is the index of the first
  slot and \<open>xs\<close> are the destination's elements when the loop starts. \<open>elementErrors\<close>
  lists, in source order, the tagged error of each element whose decode returned one:
  the tag is the index \<open>n + i\<close> of the slot. \<open>aggregate\<close> is the error the loop returns for
  a list of causes, and \<open>appendAll\<close> the repeated \<open>multierror.Append\<close>.
\<close>

definition slotDecode ::
  "extern \<Rightarrow> 'a Decoder_scheme \<Rightarrow> rtype \<Rightarrow> cfValue list \<Rightarrow> gval list \<Rightarrow> nat \<Rightarrow> nat
     \<Rightarrow> (error option \<times> gval) outcome" where
  "slotDecode X p et vs xs n i = unmarshal X p (vs ! i) et (xs ! (n + i))"

definition elementTag :: "nat \<Rightarrow> (error option \<times> gval) outcome \<Rightarrow> error list" where
  "elementTag k r = (case r of Return (Some e, x) \<Rightarrow> [ElementError k e] | _ \<Rightarrow> [])"

definition appendAll :: "error option \<Rightarrow> error list \<Rightarrow> error option" where
  "appendAll acc es = foldl (\<lambda>a e. Some (multierror_Append a e)) acc es"

definition elementErrors ::
  "extern \<Rightarrow> 'a Decoder_scheme \<Rightarrow> rtype \<Rightarrow> cfValue list \<Rightarrow> gval list \<Rightarrow> nat \<Rightarrow> error list" where
  "elementErrors X p et vs xs n =
     concat (map (\<lambda>i. elementTag (n + i) (slotDecode X p et vs xs n i)) [0..<length vs])"

lemma slotDecode_Cons_0: "slotDecode X p et (sv # vs) xs n 0 = unmarshal X p sv et (xs ! n)"
  by (simp add: slotDecode_def)

lemma slotDecode_Cons_Suc:
  "slotDecode X p et (sv # vs) xs n (Suc j) = slotDecode X p et vs xs (Suc n) j"
  by (simp add: slotDecode_def)

lemma slotDecode_update: "slotDecode X p et vs (xs[n := y]) (Suc n) j = slotDecode X p et vs xs (Suc n) j"
  by (simp add: slotDecode_def)

lemma elementErrors_Nil: "elementErrors X p et [] xs n = []"
  by (simp add: elementErrors_def)

lemma elementErrors_Cons:
  "elementErrors X p et (sv # vs) xs n =
     elementTag n (unmarshal X p sv et (xs ! n)) @ elementErrors X p et vs xs (Suc n)"
proof -
  have "[0..<length (sv # vs)] = 0 # map Suc [0..<length vs]"
    by (simp add: upt_conv_Cons map_Suc_upt del: upt_Suc)
  then show ?thesis
    by (simp add: elementErrors_def slotDecode_Cons_0 slotDecode_Cons_Suc comp_def)
qed

lemma elementErrors_update:
  "elementErrors X p et vs (xs[n := y]) (Suc n) = elementErrors X p et vs xs (Suc n)"
  by (simp add: elementErrors_def slotDecode_update)

lemma appendAll_append: "appendAll acc (es @ fs) = appendAll (appendAll acc es) fs"
  by (simp add: appendAll_def)

lemma unmarshalElems_Return:
  assumes "unmarshalElems X p vs et xs n acc = Return (err, ys)"
  shows "length ys = length xs
       \<and> (\<forall>i<length xs. i < n \<or> n + length vs \<le> i \<longrightarrow> ys ! i = xs ! i)
       \<and> (\<forall>i<length vs. \<exists>r. slotDecode X p et vs xs n i = Return r \<and> ys ! (n + i) = snd r)
       \<and> (vs \<noteq> [] \<longrightarrow> n + length vs \<le> length xs)
       \<and> err = appendAll acc (elementErrors X p et vs xs n)"
  using assms
proof (induction vs arbitrary: xs n acc)
  case Nil
  then show ?case by (simp add: elementErrors_Nil appendAll_def)
next
  case (Cons sv vs)
  from Cons.prems have n: "n < length xs"
    by (simp split: if_splits)
  from Cons.prems n obtain r where
    r: "unmarshal X p sv et (xs ! n) = Return r"
    and rest: "unmarshalElems X p vs et (xs[n := snd r]) (Suc n)
                 (case fst r of None \<Rightarrow> acc
                  | Some e \<Rightarrow> Some (multierror_Append acc (ElementError n e))) = Return (err, ys)"
    by (auto split: outcome.splits)
  let ?xs = "xs[n := snd r]"
  let ?acc = "case fst r of None \<Rightarrow> acc | Some e \<Rightarrow> Some (multierror_Append acc (ElementError n e))"
  note IH = Cons.IH [OF rest]
  have len: "length ys = length xs" using IH by simp
  have keep: "\<forall>i<length xs. i < Suc n \<or> Suc n + length vs \<le> i \<longrightarrow> ys ! i = ?xs ! i"
    using IH by simp
  have dec: "\<forall>i<length vs. \<exists>r'. slotDecode X p et vs xs (Suc n) i = Return r' \<and> ys ! (Suc n + i) = snd r'"
    using IH by (simp add: slotDecode_update)
  have bound: "vs \<noteq> [] \<longrightarrow> Suc n + length vs \<le> length xs"
    using IH by simp
  have errs: "err = appendAll ?acc (elementErrors X p et vs xs (Suc n))"
    using IH by (simp add: elementErrors_update)
  have acc: "?acc = appendAll acc (elementTag n (unmarshal X p sv et (xs ! n)))"
    by (cases r) (auto simp: r elementTag_def appendAll_def split: option.splits)
  have 1: "\<forall>i<length xs. i < n \<or> n + length (sv # vs) \<le> i \<longrightarrow> ys ! i = xs ! i"
    using keep by auto
  have yn: "ys ! n = snd r"
    using keep n by auto
  have 2: "\<forall>i<length (sv # vs). \<exists>r'. slotDecode X p et (sv # vs) xs n i = Return r' \<and> ys ! (n + i) = snd r'"
  proof (intro allI impI)
    fix i assume "i < length (sv # vs)"
    then show "\<exists>r'. slotDecode X p et (sv # vs) xs n i = Return r' \<and> ys ! (n + i) = snd r'"
      using dec r yn by (cases i) (auto simp: slotDecode_Cons_0 slotDecode_Cons_Suc)
  qed
  have 3: "n + length (sv # vs) \<le> length xs"
    using bound n by (cases vs) auto
  have 4: "err = appendAll acc (elementErrors X p et (sv # vs) xs n)"
    by (simp add: errs acc elementErrors_Cons appendAll_append)
  from len 1 2 3 4 show ?case by blast
qed


lemma unmarshalElems_total:
  assumes "\<forall>i<length vs. \<exists>r. slotDecode X p et vs xs n i = Return r"
    and "n + length vs \<le> length xs"
  shows "\<exists>err ys. unmarshalElems X p vs et xs n acc = Return (err, ys)"
  using assms
proof (induction vs arbitrary: xs n acc)
  case Nil
  then show ?case by simp
next
  case (Cons sv vs)
  have "\<exists>r. slotDecode X p et (sv # vs) xs n 0 = Return r"
    using Cons.prems(1) by simp
  then obtain r where r: "unmarshal X p sv et (xs ! n) = Return r"
    by (auto simp: slotDecode_Cons_0)
  have "\<forall>i<length vs. \<exists>r'. slotDecode X p et vs (xs[n := snd r]) (Suc n) i = Return r'"
  proof (intro allI impI)
    fix i assume "i < length vs"
    then have "\<exists>r. slotDecode X p et (sv # vs) xs n (Suc i) = Return r"
      using Cons.prems(1) by auto
    then show "\<exists>r'. slotDecode X p et vs (xs[n := snd r]) (Suc n) i = Return r'"
      by (simp add: slotDecode_Cons_Suc slotDecode_update)
  qed
  moreover have "Suc n + length vs \<le> length (xs[n := snd r])"
    using Cons.prems(2) by simp
  ultimately obtain err ys where
    "unmarshalElems X p vs et (xs[n := snd r]) (Suc n)
       (case fst r of None \<Rightarrow> acc | Some e \<Rightarrow> Some (multierror_Append acc (ElementError n e)))
     = Return (err, ys)"
    using Cons.IH by blast
  then show ?case
    using r Cons.prems(2) by simp
qed

definition aggregate :: "error list \<Rightarrow> error option" where
  "aggregate es = (if es = [] then None else Some (Multi es))"

definition isMulti :: "error \<Rightarrow> bool" where
  "isMulti e = (case e of Multi es \<Rightarrow> True | _ \<Rightarrow> False)"

lemma appendAll_Multi:
  "\<forall>e\<in>set es. \<not> isMulti e \<Longrightarrow> appendAll (Some (Multi as)) es = Some (Multi (as @ es))"
  by (induction es arbitrary: as)
     (auto simp: appendAll_def multierror_Append_def isMulti_def split: error.splits)

lemma appendAll_None:
  assumes "\<forall>e\<in>set es. \<not> isMulti e"
  shows "appendAll None es = aggregate es"
proof (cases es)
  case Nil
  then show ?thesis by (simp add: appendAll_def aggregate_def)
next
  case (Cons e es')
  have "appendAll None (e # es') = appendAll (Some (Multi [e])) es'"
    using assms Cons by (auto simp: appendAll_def multierror_Append_def isMulti_def split: error.splits)
  then show ?thesis
    using assms Cons appendAll_Multi [of es' "[e]"] by (simp add: aggregate_def)
qed

lemma elementErrors_not_Multi: "\<forall>e\<in>set (elementErrors X p et vs xs n). \<not> isMulti e"
  by (auto simp: elementErrors_def elementTag_def isMulti_def split: outcome.splits option.splits)


text \<open>The growth step: the new capacity covers \<open>cnt\<close>, the first \<open>val.Len()\<close> elements
  are kept, and the slots behind them are zero after a reallocation and the old backing
  array's otherwise.\<close>

declare growLoop.simps [simp del]

lemma growLoop_ge: "cnt \<le> growLoop ncap cnt"
proof (induction ncap cnt rule: growLoop.induct)
  case (1 ncap cnt)
  then show ?case by (simp add: growLoop.simps [of ncap cnt])
qed

lemma sliceLen_le_cap: "sliceLen v \<le> sliceCap v"
  by (simp add: sliceLen_def sliceCap_def sliceArr_def split: gval.splits)

lemma growSlice_length:
  "length (growSlice et v cnt) = (if cnt > sliceCap v then growLoop (sliceCap v) cnt else sliceCap v)"
  using sliceLen_le_cap [of v] growLoop_ge [of cnt "sliceCap v"]
  by (auto simp: growSlice_def sliceCap_def)

lemma growSlice_prefix: "i < sliceLen v \<Longrightarrow> growSlice et v cnt ! i = sliceArr v ! i"
  using sliceLen_le_cap [of v]
  by (auto simp: growSlice_def nth_append sliceCap_def)

lemma growSlice_fresh:
  "sliceLen v \<le> i \<Longrightarrow> i < cnt \<Longrightarrow>
     growSlice et v cnt ! i = (if cnt > sliceCap v then zero et else sliceArr v ! i)"
  using sliceLen_le_cap [of v] growLoop_ge [of cnt "sliceCap v"]
  by (auto simp: growSlice_def nth_append sliceCap_def)

text \<open>The loop variable \<open>n\<close> and the destination's elements when the element loop of
  \<open>unmarshalArray\<close> starts, and the elements of a sequence destination.\<close>

definition startIndex :: "rtype \<Rightarrow> gval \<Rightarrow> nat" where
  "startIndex t v = (if Kind t = KSlice then sliceLen v else 0)"

definition startSlots :: "rtype \<Rightarrow> gval \<Rightarrow> nat \<Rightarrow> gval list" where
  "startSlots t v N =
     (if Kind t = KSlice
      then take (N + sliceLen v) (growSlice (Elem t) v (N + sliceLen v))
      else arrayElems v)"

definition elemsOf :: "gval \<Rightarrow> gval list" where
  "elemsOf v = (case v of VSlice arr n \<Rightarrow> take n arr | VArray xs \<Rightarrow> xs | _ \<Rightarrow> [])"

lemma startSlots_length:
  "Kind t = KSlice \<Longrightarrow> length (startSlots t v N) = N + sliceLen v"
  using growLoop_ge [of "N + sliceLen v" "sliceCap v"]
  by (auto simp: startSlots_def growSlice_length)

lemma unmarshalArray_elements:
  assumes kind: "Kind t = KSlice \<or> (Kind t = KArray \<and> length vs \<le> Len t \<and> length (arrayElems v) = Len t)"
    and ret: "\<forall>i<length vs. \<exists>r.
        slotDecode X p (Elem t) vs (startSlots t v (length vs)) (startIndex t v) i = Return r"
  shows "\<exists>ys. unmarshalArray X p vs t v =
            Return (aggregate (elementErrors X p (Elem t) vs (startSlots t v (length vs)) (startIndex t v)),
                    if Kind t = KSlice
                    then VSlice (ys @ drop (length vs + sliceLen v)
                                         (growSlice (Elem t) v (length vs + sliceLen v)))
                                (length vs + sliceLen v)
                    else withElems v ys)
          \<and> length ys = length (startSlots t v (length vs))
          \<and> (\<forall>i<length ys. i < startIndex t v \<or> startIndex t v + length vs \<le> i
                \<longrightarrow> ys ! i = startSlots t v (length vs) ! i)
          \<and> (\<forall>i<length vs. \<exists>r.
                slotDecode X p (Elem t) vs (startSlots t v (length vs)) (startIndex t v) i = Return r
                \<and> ys ! (startIndex t v + i) = snd r)"
proof -
  let ?xs = "startSlots t v (length vs)"
  let ?n = "startIndex t v"
  have bound: "?n + length vs \<le> length ?xs"
    using kind by (auto simp: startIndex_def startSlots_length) (simp add: startSlots_def)
  obtain err ys where loop: "unmarshalElems X p vs (Elem t) ?xs ?n None = Return (err, ys)"
    using unmarshalElems_total [OF ret bound] by blast
  note ch = unmarshalElems_Return [OF loop]
  have err: "err = aggregate (elementErrors X p (Elem t) vs ?xs ?n)"
    using ch appendAll_None [OF elementErrors_not_Multi] by simp
  have "unmarshalArray X p vs t v =
          Return (err, if Kind t = KSlice
                    then VSlice (ys @ drop (length vs + sliceLen v)
                                         (growSlice (Elem t) v (length vs + sliceLen v)))
                                (length vs + sliceLen v)
                    else withElems v ys)"
    using kind loop
    by (auto simp: unmarshalArray.simps startSlots_def startIndex_def Let_def)
  with err ch show ?thesis by auto
qed



subsection \<open>Sequence decode into a slice\<close>

text \<open>
  C2, as the code has it. An Array node with \<open>N\<close> elements is decoded into a slice of
  length \<open>L\<close>; each element's decode returns (with or without an error). Then the decode
  returns, the slice has length \<open>L + N\<close>, its first \<open>L\<close> elements are unchanged, and the
  element at index \<open>L + i\<close> is the result of decoding the \<open>i\<close>-th source element into the
  slot at that index. The slot holds the zero value when the slice has been reallocated
  (\<open>L + N\<close> exceeds the capacity) and the previous content of the backing array
  otherwise, so the element need not be a function of the source element alone. The
  capacity is unchanged when it suffices, and otherwise the result of stepping it by
  \<open>growSliceCap\<close> until it does: from 0 to 4, doubled from 1 up to 1023, and increased by
  a quarter from 1024 on.
\<close>

theorem slice_decode:
  assumes kind: "Kind t = KSlice"
    and ret: "\<forall>i<length vs. \<exists>r.
        unmarshal X p (vs ! i) (Elem t)
          (if sliceLen v + length vs > sliceCap v then zero (Elem t)
           else sliceArr v ! (sliceLen v + i)) = Return r"
  shows "\<exists>err v'. unmarshalArray X p vs t v = Return (err, v')
       \<and> sliceLen v' = sliceLen v + length vs
       \<and> (\<forall>i < sliceLen v. sliceArr v' ! i = sliceArr v ! i)
       \<and> (\<forall>i<length vs. \<exists>r.
             unmarshal X p (vs ! i) (Elem t)
               (if sliceLen v + length vs > sliceCap v then zero (Elem t)
                else sliceArr v ! (sliceLen v + i)) = Return r
             \<and> sliceArr v' ! (sliceLen v + i) = snd r)
       \<and> sliceCap v' = (if sliceLen v + length vs > sliceCap v
                         then growLoop (sliceCap v) (sliceLen v + length vs) else sliceCap v)
       \<and> growSliceCap 0 = 4
       \<and> (\<forall>c. 0 < c \<and> c < 1024 \<longrightarrow> growSliceCap c = 2 * c)
       \<and> (\<forall>c. 1024 \<le> c \<longrightarrow> growSliceCap c = c + c div 4)"
proof -
  let ?N = "length vs" and ?L = "sliceLen v"
  let ?xs = "startSlots t v ?N"
  have L: "startIndex t v = ?L" using kind by (simp add: startIndex_def)
  have len: "length ?xs = ?N + ?L" using kind by (rule startSlots_length)
  have slot: "?xs ! (?L + i) = (if ?L + ?N > sliceCap v then zero (Elem t) else sliceArr v ! (?L + i))"
    if "i < ?N" for i
    using that kind growSlice_fresh [of v "?L + i" "?N + ?L" "Elem t"]
    by (simp add: startSlots_def add.commute)
  have ret': "\<forall>i<?N. \<exists>r. slotDecode X p (Elem t) vs ?xs (startIndex t v) i = Return r"
    using ret slot by (simp add: slotDecode_def L)
  from unmarshalArray_elements [OF _ ret'] kind obtain ys where
    run: "unmarshalArray X p vs t v =
            Return (aggregate (elementErrors X p (Elem t) vs ?xs (startIndex t v)),
                    VSlice (ys @ drop (?N + ?L) (growSlice (Elem t) v (?N + ?L))) (?N + ?L))"
    and ylen: "length ys = length ?xs"
    and keep: "\<forall>i<length ys. i < startIndex t v \<or> startIndex t v + ?N \<le> i \<longrightarrow> ys ! i = ?xs ! i"
    and dec: "\<forall>i<?N. \<exists>r. slotDecode X p (Elem t) vs ?xs (startIndex t v) i = Return r
                \<and> ys ! (startIndex t v + i) = snd r"
    by auto
  let ?v' = "VSlice (ys @ drop (?N + ?L) (growSlice (Elem t) v (?N + ?L))) (?N + ?L)"
  have glen: "?N + ?L \<le> length (growSlice (Elem t) v (?N + ?L))"
    using growLoop_ge [of "?N + ?L" "sliceCap v"] by (simp add: growSlice_length)
  have 1: "sliceLen ?v' = ?L + ?N"
    using ylen len by (simp add: sliceLen_def)
  have 2: "\<forall>i < ?L. sliceArr ?v' ! i = sliceArr v ! i"
    using keep ylen len kind growSlice_prefix [of _ v "Elem t" "?N + ?L"]
    by (simp add: sliceArr_def nth_append L startSlots_def)
  have 3: "\<forall>i<?N. \<exists>r. unmarshal X p (vs ! i) (Elem t)
               (if ?L + ?N > sliceCap v then zero (Elem t) else sliceArr v ! (?L + i)) = Return r
             \<and> sliceArr ?v' ! (?L + i) = snd r"
    using dec slot ylen len by (simp add: slotDecode_def L sliceArr_def nth_append)
  have 4: "sliceCap ?v' = (if ?L + ?N > sliceCap v then growLoop (sliceCap v) (?L + ?N) else sliceCap v)"
    using ylen len glen by (simp add: sliceCap_def sliceArr_def growSlice_length add.commute)
  have 5: "growSliceCap 0 = 4" "\<forall>c. 0 < c \<and> c < 1024 \<longrightarrow> growSliceCap c = 2 * c"
    "\<forall>c. 1024 \<le> c \<longrightarrow> growSliceCap c = c + c div 4"
    by (simp_all add: growSliceCap_def)
  from run 1 2 3 4 5 show ?thesis by blast
qed

theorem slice_decode_witness:
  "unmarshalArray exampleExtern strict [CfNumber 1 True, CfString ''x'']
     (TSlice int64Type) (VSlice [VInt 9] 1)
   = Return (Some (Multi [ElementError 2 (IncompatibleDecodeType int64Type ''string'')]),
             VSlice [VInt 9, VInt 1, VInt 0, VInt 0] 3)
   \<and> (\<exists>err v'. unmarshalArray exampleExtern strict [CfNumber 1 True, CfString ''x'']
          (TSlice int64Type) (VSlice [VInt 9] 1) = Return (err, v')
        \<and> sliceLen v' = sliceLen (VSlice [VInt 9] 1) + 2
        \<and> sliceArr v' ! 0 = VInt 9
        \<and> sliceCap v' = 4)"
proof -
  let ?vs = "[CfNumber 1 True, CfString ''x'']"
  let ?t = "TSlice int64Type"
  let ?v = "VSlice [VInt 9] 1"
  let ?slot = "\<lambda>i. if sliceLen ?v + length ?vs > sliceCap ?v then zero (Elem ?t)
                    else sliceArr ?v ! (sliceLen ?v + i)"
  have kind: "Kind ?t = KSlice" by simp
  have ret: "\<forall>i<length ?vs. \<exists>r.
      unmarshal exampleExtern strict (?vs ! i) (Elem ?t) (?slot i) = Return r"
  proof (intro allI impI)
    fix i assume "i < length ?vs"
    then have "i = 0 \<or> i = Suc 0" by auto
    moreover have "unmarshal exampleExtern strict (?vs ! 0) (Elem ?t) (?slot 0)
        = Return (None, VInt 1)"
      by code_simp
    moreover have "unmarshal exampleExtern strict (?vs ! Suc 0) (Elem ?t) (?slot (Suc 0))
        = Return (Some (IncompatibleDecodeType int64Type ''string''), VInt 0)"
      by code_simp
    ultimately show "\<exists>r. unmarshal exampleExtern strict (?vs ! i) (Elem ?t) (?slot i) = Return r"
      by auto
  qed
  have run: "unmarshalArray exampleExtern strict ?vs ?t ?v
     = Return (Some (Multi [ElementError 2 (IncompatibleDecodeType int64Type ''string'')]),
               VSlice [VInt 9, VInt 1, VInt 0, VInt 0] 3)"
    by code_simp
  have cap: "(if sliceLen ?v + length ?vs > sliceCap ?v
              then growLoop (sliceCap ?v) (sliceLen ?v + length ?vs) else sliceCap ?v) = 4"
    by code_simp
  have len: "length ?vs = 2" by simp
  have first: "0 < sliceLen ?v" "sliceArr ?v ! 0 = VInt 9" by code_simp+
  from slice_decode [OF kind ret] obtain err v' where
    r1: "unmarshalArray exampleExtern strict ?vs ?t ?v = Return (err, v')"
    and r2: "sliceLen v' = sliceLen ?v + length ?vs"
    and r3: "\<forall>i < sliceLen ?v. sliceArr v' ! i = sliceArr ?v ! i"
    and r4: "sliceCap v' = (if sliceLen ?v + length ?vs > sliceCap ?v
                     then growLoop (sliceCap ?v) (sliceLen ?v + length ?vs) else sliceCap ?v)"
    by blast
  from r2 have "sliceLen v' = sliceLen ?v + 2" by (simp only: len)
  moreover from r3 first have "sliceArr v' ! 0 = VInt 9" by metis
  moreover from r4 have "sliceCap v' = 4" by (simp only: cap)
  ultimately have "unmarshalArray exampleExtern strict ?vs ?t ?v = Return (err, v')
        \<and> sliceLen v' = sliceLen ?v + 2 \<and> sliceArr v' ! 0 = VInt 9 \<and> sliceCap v' = 4"
    using r1 by blast
  with run show ?thesis by blast
qed

text \<open>
  The claim as the specification states it fails where a slot within the capacity holds
  an earlier value: the inner slice \<open>[7]\<close> left behind the length of the destination
  receives the source element \<open>[1]\<close> and becomes \<open>[7, 1]\<close>, whereas the source element
  decodes to \<open>[1]\<close> on its own; and a capacity of 0 grows to 4, which is not a doubling.
\<close>

theorem slice_decode_counterexample:
  "unmarshalArray exampleExtern strict [CfArray [CfNumber 1 True]]
     (TSlice (TSlice int64Type)) (VSlice [VSlice [VInt 7] 1] 0)
   = Return (None, VSlice [VSlice [VInt 7, VInt 1] 2] 1)
   \<and> unmarshal exampleExtern strict (CfArray [CfNumber 1 True]) (TSlice int64Type)
        (zero (TSlice int64Type))
     = Return (None, VSlice [VInt 1, VInt 0, VInt 0, VInt 0] 1)
   \<and> growSliceCap 0 = 4"
  by code_simp

subsection \<open>Sequence decode: failing elements\<close>

text \<open>
  C3, as the code has it. An Array node is decoded into a slice or into a fixed-size array
  that is long enough, and each element's decode returns (with or without an error). Then
  the decode returns; it returns the aggregate of the errors of the failing elements in
  source order, each tagged with the index of the slot the element was decoded into, which
  is \<open>L + i\<close> for the \<open>i\<close>-th source element and a slice of initial length \<open>L\<close>, and \<open>i\<close>
  for an array; and every element has been decoded into its slot, whichever elements
  failed.
\<close>

theorem sequence_element_errors:
  assumes kind: "Kind t = KSlice
      \<or> (Kind t = KArray \<and> length vs \<le> Len t \<and> length (arrayElems v) = Len t)"
    and ret: "\<forall>i<length vs. \<exists>r.
        slotDecode X p (Elem t) vs (startSlots t v (length vs)) (startIndex t v) i = Return r"
  shows "\<exists>v'. unmarshalArray X p vs t v =
            Return (aggregate (elementErrors X p (Elem t) vs (startSlots t v (length vs))
                                 (startIndex t v)), v')
          \<and> (\<forall>i<length vs. \<exists>r.
                slotDecode X p (Elem t) vs (startSlots t v (length vs)) (startIndex t v) i = Return r
                \<and> elemsOf v' ! (startIndex t v + i) = snd r)"
proof -
  let ?xs = "startSlots t v (length vs)"
  from unmarshalArray_elements [OF kind ret] obtain ys where
    run: "unmarshalArray X p vs t v =
            Return (aggregate (elementErrors X p (Elem t) vs ?xs (startIndex t v)),
                    if Kind t = KSlice
                    then VSlice (ys @ drop (length vs + sliceLen v)
                                         (growSlice (Elem t) v (length vs + sliceLen v)))
                                (length vs + sliceLen v)
                    else withElems v ys)"
    and ylen: "length ys = length ?xs"
    and dec: "\<forall>i<length vs. \<exists>r. slotDecode X p (Elem t) vs ?xs (startIndex t v) i = Return r
                \<and> ys ! (startIndex t v + i) = snd r"
    by blast
  let ?v' = "if Kind t = KSlice
             then VSlice (ys @ drop (length vs + sliceLen v)
                                  (growSlice (Elem t) v (length vs + sliceLen v)))
                         (length vs + sliceLen v)
             else withElems v ys"
  have "elemsOf ?v' = ys" if "vs \<noteq> []"
  proof (cases "Kind t = KSlice")
    case True
    then show ?thesis using ylen by (simp add: elemsOf_def startSlots_length)
  next
    case False
    with kind that have "arrayElems v \<noteq> []" by auto
    then show ?thesis using False
      by (auto simp: elemsOf_def withElems_def arrayElems_def split: gval.splits)
  qed
  then have "\<forall>i<length vs. \<exists>r. slotDecode X p (Elem t) vs ?xs (startIndex t v) i = Return r
                \<and> elemsOf ?v' ! (startIndex t v + i) = snd r"
    using dec by (cases vs) auto
  with run show ?thesis by blast
qed

theorem sequence_element_errors_witness:
  "unmarshalArray exampleExtern strict [CfString ''x'', CfNumber 5 True]
     (TArray 2 int64Type) (VArray [VInt 7, VInt 8])
   = Return (Some (Multi [ElementError 0 (IncompatibleDecodeType int64Type ''string'')]),
             VArray [VInt 7, VInt 5])
   \<and> aggregate (elementErrors exampleExtern strict int64Type [CfString ''x'', CfNumber 5 True]
        [VInt 7, VInt 8] 0)
     = Some (Multi [ElementError 0 (IncompatibleDecodeType int64Type ''string'')])"
proof -
  let ?vs = "[CfString ''x'', CfNumber 5 True]"
  let ?t = "TArray 2 int64Type"
  let ?v = "VArray [VInt 7, VInt 8]"
  have kind: "Kind ?t = KSlice
      \<or> (Kind ?t = KArray \<and> length ?vs \<le> Len ?t \<and> length (arrayElems ?v) = Len ?t)"
    by (simp add: arrayElems_def)
  have slots: "startSlots ?t ?v (length ?vs) = [VInt 7, VInt 8]" "startIndex ?t ?v = 0"
    by (simp_all add: startSlots_def startIndex_def arrayElems_def)
  have ret: "\<forall>i<length ?vs. \<exists>r.
      slotDecode exampleExtern strict (Elem ?t) ?vs (startSlots ?t ?v (length ?vs))
        (startIndex ?t ?v) i = Return r"
  proof (intro allI impI)
    fix i assume "i < length ?vs"
    then have "i = 0 \<or> i = Suc 0" by auto
    moreover have "slotDecode exampleExtern strict (Elem ?t) ?vs [VInt 7, VInt 8] 0 0
        = Return (Some (IncompatibleDecodeType int64Type ''string''), VInt 7)"
      by code_simp
    moreover have "slotDecode exampleExtern strict (Elem ?t) ?vs [VInt 7, VInt 8] 0 (Suc 0)
        = Return (None, VInt 5)"
      by code_simp
    ultimately show "\<exists>r. slotDecode exampleExtern strict (Elem ?t) ?vs
        (startSlots ?t ?v (length ?vs)) (startIndex ?t ?v) i = Return r"
      unfolding slots by auto
  qed
  have run: "unmarshalArray exampleExtern strict ?vs ?t ?v
     = Return (Some (Multi [ElementError 0 (IncompatibleDecodeType int64Type ''string'')]),
               VArray [VInt 7, VInt 5])"
    by code_simp
  from sequence_element_errors [OF kind ret] obtain v' where
    "unmarshalArray exampleExtern strict ?vs ?t ?v =
       Return (aggregate (elementErrors exampleExtern strict (Elem ?t) ?vs
                 (startSlots ?t ?v (length ?vs)) (startIndex ?t ?v)), v')"
    by blast
  with run have "aggregate (elementErrors exampleExtern strict (Elem ?t) ?vs
                 (startSlots ?t ?v (length ?vs)) (startIndex ?t ?v))
       = Some (Multi [ElementError 0 (IncompatibleDecodeType int64Type ''string'')])"
    by simp
  with run show ?thesis unfolding slots by simp
qed

text \<open>
  The claim as the specification states it fails on the tag: the failing element at
  position 0 of the source is tagged 1 when the slice already holds one element. It also
  fails for a failure that is a panic: in lax mode the text \<open>abc\<close> at position 0 stops the
  decode, and the element at position 1 is never decoded.
\<close>

theorem sequence_error_tag_counterexample:
  "unmarshalArray exampleExtern strict [CfString ''x''] (TSlice int64Type) (VSlice [VInt 9] 1)
   = Return (Some (Multi [ElementError 1 (IncompatibleDecodeType int64Type ''string'')]),
             VSlice [VInt 9, VInt 0] 2)
   \<and> unmarshalArray exampleExtern laxDecoder [CfString ''abc'', CfString ''5'']
        (TSlice int64Type) (VSlice [] 0)
     = Panic (External ''strconv.ParseInt: invalid syntax'')"
  by code_simp



subsection \<open>Mapping decode into a map\<close>

text \<open>What a decode has written: its outcome without the error.\<close>

definition written :: "(error option \<times> 'b) outcome \<Rightarrow> 'b outcome" where
  "written r = (case r of Panic e \<Rightarrow> Panic e | Return x \<Rightarrow> Return (snd x))"

lemma Convert_inject: "Convert kt k = Convert kt k' \<longleftrightarrow> k = k'"
  by (simp add: Convert_def)

lemma unmarshalPairs_acc:
  "written (unmarshalPairs X p ks vs kt et m acc) = written (unmarshalPairs X p ks vs kt et m acc')"
proof (induction ks arbitrary: vs m acc acc')
  case Nil
  then show ?case by (simp add: written_def)
next
  case (Cons k ks)
  show ?case
  proof (cases vs)
    case Nil
    then show ?thesis by (simp add: written_def)
  next
    case (Cons sv vs')
    show ?thesis
    proof (cases "unmarshal X p sv et (zero et)")
      case (Panic e)
      then show ?thesis using Cons by (simp add: written_def)
    next
      case (Return r)
      then show ?thesis using Cons Cons.IH
        by (cases "fst r") simp_all
    qed
  qed
qed

lemma unmarshalPairs_skip:
  assumes "length ks1 = length vs1"
    and "unmarshal X p sv et (zero et) = Return (Some e, x)"
  shows "written (unmarshalPairs X p (ks1 @ k # ks2) (vs1 @ sv # vs2) kt et m acc)
       = written (unmarshalPairs X p (ks1 @ ks2) (vs1 @ vs2) kt et m acc)"
  using assms(1)
proof (induction ks1 vs1 arbitrary: m acc rule: list_induct2)
  case Nil
  show ?case using assms(2) unmarshalPairs_acc [of X p ks2 vs2 kt et m] by simp
next
  case (Cons k1 ks1 v1 vs1)
  show ?case
  proof (cases "unmarshal X p v1 et (zero et)")
    case (Panic e)
    then show ?thesis by (simp add: written_def)
  next
    case (Return r)
    then show ?thesis using Cons.IH by (cases "fst r") simp_all
  qed
qed

lemma unmarshalPairs_append:
  assumes "length ks1 = length vs1"
  shows "unmarshalPairs X p (ks1 @ ks2) (vs1 @ vs2) kt et m acc =
           (case unmarshalPairs X p ks1 vs1 kt et m acc of
              Panic e \<Rightarrow> Panic e
            | Return r \<Rightarrow> unmarshalPairs X p ks2 vs2 kt et (snd r) (fst r))"
  using assms
proof (induction ks1 vs1 arbitrary: m acc rule: list_induct2)
  case Nil
  show ?case by simp
next
  case (Cons k1 ks1 v1 vs1)
  show ?case
  proof (cases "unmarshal X p v1 et (zero et)")
    case (Panic e)
    then show ?thesis by simp
  next
    case (Return r)
    then show ?thesis using Cons.IH by (cases "fst r") simp_all
  qed
qed

lemma unmarshalPairs_keep:
  assumes "unmarshalPairs X p ks vs kt et m acc = Return (err, m')"
    and "key \<notin> Convert kt ` set ks"
  shows "map_of m' key = map_of m key"
  using assms
proof (induction ks arbitrary: vs m acc)
  case Nil
  then show ?case by simp
next
  case (Cons k ks)
  from Cons.prems(1) obtain sv vs' where vs: "vs = sv # vs'"
    by (cases vs) auto
  from Cons.prems(1) vs obtain r where r: "unmarshal X p sv et (zero et) = Return r"
    by (auto split: outcome.splits)
  show ?case
  proof (cases "fst r")
    case None
    with Cons.prems vs r have "map_of m' key = map_of (AList.update (Convert kt k) (snd r) m) key"
      using Cons.IH [of vs' "AList.update (Convert kt k) (snd r) m" acc] by simp
    then show ?thesis using Cons.prems(2) by (simp add: update_conv')
  next
    case (Some e)
    with Cons.prems vs r show ?thesis
      using Cons.IH [of vs' m "Some (multierror_Append acc (MapKeyError k e))"] by simp
  qed
qed

lemma unmarshalPairs_last:
  assumes len: "length ks1 = length vs1"
    and last: "k \<notin> set ks2"
    and dec: "unmarshal X p sv et (zero et) = Return (None, x)"
    and run: "unmarshalPairs X p (ks1 @ k # ks2) (vs1 @ sv # vs2) kt et m acc = Return (err, m')"
  shows "map_of m' (Convert kt k) = Some x"
proof -
  from run unmarshalPairs_append [OF len, of X p "k # ks2" "sv # vs2" kt et m acc]
  obtain r where "unmarshalPairs X p (k # ks2) (sv # vs2) kt et (snd r) (fst r) = Return (err, m')"
    by (auto split: outcome.splits)
  with dec have rest: "unmarshalPairs X p ks2 vs2 kt et (AList.update (Convert kt k) x (snd r)) (fst r)
      = Return (err, m')"
    by simp
  have "Convert kt k \<notin> Convert kt ` set ks2"
    using last by (auto simp: Convert_inject)
  from unmarshalPairs_keep [OF rest this] show ?thesis
    by (simp add: update_conv')
qed


text \<open>
  C7. A Dictionary node is decoded into a map whose key type is convertible from
  \<open>string\<close>. Each value is decoded on its own into a fresh element of the map's value
  type; for a key, the entry of the map after the decode is the decoded value of the key's
  last pair, when that decode succeeds: a later pair overwrites an earlier one. The
  specification's example, \<open>Dictionary([("a",1),("a",2)])\<close> into a string-keyed map, yields
  \<open>{"a": 2}\<close>.
\<close>

theorem map_last_occurrence_wins:
  assumes "Kind t = KMap" and "convertibleFromString (Key t)"
    and "length ks1 = length vs1" and "k \<notin> set ks2"
    and "unmarshal X p sv (Elem t) (zero (Elem t)) = Return (None, x)"
    and "unmarshalDictionary X p (ks1 @ k # ks2) (vs1 @ sv # vs2) t v = Return (err, v')"
  shows "map_of (mapEntries v') (Convert (Key t) k) = Some x"
proof -
  from assms(1,2,6) obtain m' where
    run: "unmarshalPairs X p (ks1 @ k # ks2) (vs1 @ sv # vs2) (Key t) (Elem t) (mapEntries v) None
            = Return (err, m')"
    and v': "v' = VMap (Some m')"
    by (auto simp: unmarshalDictionary.simps split: outcome.splits)
  from unmarshalPairs_last [OF assms(3,4,5) run] show ?thesis
    by (simp add: v' mapEntries_def)
qed

theorem map_last_occurrence_wins_witness:
  "unmarshalDictionary exampleExtern strict [''a'', ''a''] [CfNumber 1 True, CfNumber 2 True]
     (TMap stringType int64Type) (VMap None)
   = Return (None, VMap (Some [(VString ''a'', VInt 2)]))
   \<and> map_of (mapEntries (VMap (Some [(VString ''a'', VInt 2)]))) (Convert stringType ''a'')
     = Some (VInt 2)"
proof -
  let ?t = "TMap stringType int64Type"
  have run: "unmarshalDictionary exampleExtern strict ([''a''] @ ''a'' # []) ([CfNumber 1 True] @ CfNumber 2 True # [])
     ?t (VMap None) = Return (None, VMap (Some [(VString ''a'', VInt 2)]))"
    by code_simp
  have kind: "Kind ?t = KMap" by simp
  have key: "convertibleFromString (Key ?t)" by code_simp
  have len: "length [''a''] = length [CfNumber 1 True]" by simp
  have last: "''a'' \<notin> set []" by simp
  have dec: "unmarshal exampleExtern strict (CfNumber 2 True) (Elem ?t) (zero (Elem ?t))
      = Return (None, VInt 2)"
    by code_simp
  from map_last_occurrence_wins [OF kind key len last dec run]
  have "map_of (mapEntries (VMap (Some [(VString ''a'', VInt 2)]))) (Convert (Key ?t) ''a'')
      = Some (VInt 2)" .
  with run show ?thesis by simp
qed

text \<open>
  C10. In mapping decode into a map, a pair whose value fails to decode sets no entry:
  what the decode writes is what it writes for the dictionary without that pair. So when
  the later pair of a duplicate key fails, the value of the earlier pair stays in the map.
\<close>

theorem map_failed_pair_sets_nothing:
  assumes "Kind t = KMap" and "length ks1 = length vs1"
    and "unmarshal X p sv (Elem t) (zero (Elem t)) = Return (Some e, x)"
  shows "written (unmarshalDictionary X p (ks1 @ k # ks2) (vs1 @ sv # vs2) t v)
       = written (unmarshalDictionary X p (ks1 @ ks2) (vs1 @ vs2) t v)"
proof (cases "convertibleFromString (Key t)")
  case False
  then show ?thesis using assms(1) by (simp add: unmarshalDictionary.simps)
next
  case True
  have "written (case unmarshalPairs X p ks vs (Key t) (Elem t) m None of
                   Panic e \<Rightarrow> Panic e
                 | Return r \<Rightarrow> Return (fst r, VMap (Some (snd r))))
        = (case written (unmarshalPairs X p ks vs (Key t) (Elem t) m None) of
             Panic e \<Rightarrow> Panic e | Return m' \<Rightarrow> Return (VMap (Some m')))" for ks vs m
    by (simp add: written_def split: outcome.splits)
  then show ?thesis
    using True assms(1) unmarshalPairs_skip [OF assms(2,3), of k ks2 vs2 "Key t" "mapEntries v" None]
    by (simp add: unmarshalDictionary.simps)
qed

theorem map_failed_pair_sets_nothing_witness:
  "unmarshalDictionary exampleExtern strict [''a'', ''a''] [CfNumber 1 True, CfString ''x'']
     (TMap stringType int64Type) (VMap None)
   = Return (Some (Multi [MapKeyError ''a'' (IncompatibleDecodeType int64Type ''string'')]),
             VMap (Some [(VString ''a'', VInt 1)]))
   \<and> written (unmarshalDictionary exampleExtern strict [''a'', ''a'']
        [CfNumber 1 True, CfString ''x''] (TMap stringType int64Type) (VMap None))
     = written (unmarshalDictionary exampleExtern strict [''a''] [CfNumber 1 True]
        (TMap stringType int64Type) (VMap None))"
proof -
  let ?t = "TMap stringType int64Type"
  have run: "unmarshalDictionary exampleExtern strict [''a'', ''a''] [CfNumber 1 True, CfString ''x'']
     ?t (VMap None)
   = Return (Some (Multi [MapKeyError ''a'' (IncompatibleDecodeType int64Type ''string'')]),
             VMap (Some [(VString ''a'', VInt 1)]))"
    by code_simp
  have kind: "Kind ?t = KMap" by simp
  have len: "length [''a''] = length [CfNumber 1 True]" by simp
  have dec: "unmarshal exampleExtern strict (CfString ''x'') (Elem ?t) (zero (Elem ?t))
      = Return (Some (IncompatibleDecodeType int64Type ''string''), VInt 0)"
    by code_simp
  from map_failed_pair_sets_nothing [OF kind len dec, of "''a''" "[]" "[]" "VMap None"]
  have "written (unmarshalDictionary exampleExtern strict [''a'', ''a'']
        [CfNumber 1 True, CfString ''x''] ?t (VMap None))
     = written (unmarshalDictionary exampleExtern strict [''a''] [CfNumber 1 True] ?t (VMap None))"
    by simp
  with run show ?thesis by blast
qed



subsection \<open>Mapping decode into a record\<close>

text \<open>The lookup built from a dictionary holds, for each key, the value of its last pair;
  the field loop reads it only at the names of the field descriptors, and writes only the
  fields of the descriptors whose name it finds.\<close>

lemma entriesLoop_lookup:
  assumes "length ks \<le> length vs"
  shows "\<exists>entries. entriesLoop ks vs acc = Return entries
          \<and> (\<forall>k. map_of entries k =
                (case map_of (rev (zip ks vs)) k of Some v \<Rightarrow> Some v | None \<Rightarrow> map_of acc k))"
  using assms
proof (induction ks vs acc rule: entriesLoop.induct)
  case (1 vs entries)
  then show ?case by simp
next
  case (2 k ks entries)
  then show ?case by simp
next
  case (3 k ks sval vs acc)
  then obtain entries where
    "entriesLoop ks vs (AList.update k sval acc) = Return entries"
    "\<forall>k'. map_of entries k' =
        (case map_of (rev (zip ks vs)) k' of Some v \<Rightarrow> Some v
         | None \<Rightarrow> map_of (AList.update k sval acc) k')"
    by auto
  then show ?case
    by (auto simp: update_conv' map_add_def split: option.splits)
qed

lemma entriesLoop_lookup_empty:
  assumes "length ks \<le> length vs"
  shows "\<exists>entries. entriesLoop ks vs [] = Return entries
          \<and> (\<forall>k. map_of entries k = map_of (rev (zip ks vs)) k)"
proof -
  from entriesLoop_lookup [OF assms, of "[]"] obtain entries where
    e: "entriesLoop ks vs [] = Return entries"
    and l: "\<forall>k. map_of entries k =
              (case map_of (rev (zip ks vs)) k of Some v \<Rightarrow> Some v | None \<Rightarrow> map_of [] k)"
    by blast
  have "map_of entries k = map_of (rev (zip ks vs)) k" for k
    using l by (cases "map_of (rev (zip ks vs)) k") simp_all
  with e show ?thesis by blast
qed

lemma unmarshalFields_lookup_cong:
  assumes "\<forall>f\<in>set tfields. map_of e1 (finfo_name f) = map_of e2 (finfo_name f)"
  shows "unmarshalFields X p e1 tfields fts xs acc = unmarshalFields X p e2 tfields fts xs acc"
  using assms
proof (induction tfields arbitrary: xs acc)
  case Nil
  then show ?case by simp
next
  case (Cons f tfields)
  then have eq: "map_of e1 (finfo_name f) = map_of e2 (finfo_name f)"
    and IH: "\<And>xs acc. unmarshalFields X p e1 tfields fts xs acc
                      = unmarshalFields X p e2 tfields fts xs acc"
    by auto
  show ?case
    by (simp add: eq IH split: option.splits outcome.splits)
qed

lemma unmarshalFields_untouched:
  assumes "unmarshalFields X p entries tfields fts xs acc = Return (err, ys)"
  shows "length ys = length xs
       \<and> (\<forall>j. (\<forall>f\<in>set tfields. finfo_idx f = j \<longrightarrow> map_of entries (finfo_name f) = None)
              \<longrightarrow> ys ! j = xs ! j)"
  using assms
proof (induction tfields arbitrary: xs acc)
  case Nil
  then show ?case by simp
next
  case (Cons f tfields)
  show ?case
  proof (cases "map_of entries (finfo_name f)")
    case None
    with Cons.prems have "unmarshalFields X p entries tfields fts xs acc = Return (err, ys)"
      by simp
    from Cons.IH [OF this] show ?thesis by auto
  next
    case (Some ent)
    show ?thesis
    proof (cases "fst (fts ! finfo_idx f)")
      case False
      with Some Cons.prems have
        "unmarshalFields X p entries tfields fts xs
           (Some (multierror_Append acc (FieldNotSettable (finfo_name f)))) = Return (err, ys)"
        by (simp split: if_splits)
      from Cons.IH [OF this] show ?thesis by auto
    next
      case True
      with Some Cons.prems obtain r where
        "unmarshalFields X p entries tfields fts (xs[finfo_idx f := snd r])
           (case fst r of None \<Rightarrow> acc
            | Some e \<Rightarrow> Some (multierror_Append acc (FieldError (finfo_name f) e)))
         = Return (err, ys)"
        by (auto split: if_splits outcome.splits)
      from Cons.IH [OF this] Some show ?thesis by auto
    qed
  qed
qed

lemma map_of_filter_fst:
  "map_of (filter (\<lambda>kv. fst kv \<in> S) ps) k = (if k \<in> S then map_of ps k else None)"
  by (induction ps) auto

text \<open>The pairs of a dictionary whose key is the name of a field descriptor.\<close>

definition knownPairs :: "fieldInfo list \<Rightarrow> string list \<Rightarrow> cfValue list \<Rightarrow> (string \<times> cfValue) list" where
  "knownPairs tfields ks vs = filter (\<lambda>kv. fst kv \<in> finfo_name ` set tfields) (zip ks vs)"

text \<open>
  C6. A Dictionary node (with a value for each key) is decoded into a record whose field
  descriptors are \<open>tfields\<close>. The keys that are not the name of a descriptor are ignored:
  the decode of the dictionary without them has the same outcome, error and destination.
  And a field is left as it was when no descriptor that accesses it has its name among the
  keys.
\<close>

theorem record_ignores_unknown_keys:
  assumes kind: "Kind t = KStruct" and info: "getTypeInfo X t = Inr tfields"
    and len: "length ks \<le> length vs"
  shows "unmarshalDictionary X p (map fst (knownPairs tfields ks vs))
             (map snd (knownPairs tfields ks vs)) t v
           = unmarshalDictionary X p ks vs t v
       \<and> (\<forall>err v'. unmarshalDictionary X p ks vs t v = Return (err, v') \<longrightarrow>
             length (structFields v') = length (structFields v)
             \<and> (\<forall>j. (\<forall>f\<in>set tfields. finfo_idx f = j \<longrightarrow> finfo_name f \<notin> set ks)
                    \<longrightarrow> structFields v' ! j = structFields v ! j))"
proof -
  let ?kp = "knownPairs tfields ks vs"
  obtain e1 where e1: "entriesLoop ks vs [] = Return e1"
    and l1: "\<forall>k. map_of e1 k = map_of (rev (zip ks vs)) k"
    using entriesLoop_lookup_empty [OF len] by blast
  have "length (map fst ?kp) \<le> length (map snd ?kp)" by simp
  from entriesLoop_lookup_empty [OF this] obtain e2 where
    e2: "entriesLoop (map fst ?kp) (map snd ?kp) [] = Return e2"
    and l2: "\<forall>k. map_of e2 k = map_of (rev ?kp) k"
    by (auto simp: zip_map_fst_snd)
  have "map_of e2 (finfo_name f) = map_of e1 (finfo_name f)" if "f \<in> set tfields" for f
    using that l1 l2 map_of_filter_fst [of "finfo_name ` set tfields" "rev (zip ks vs)" "finfo_name f"]
    by (simp add: knownPairs_def rev_filter)
  then have same: "unmarshalFields X p e2 tfields fts xs acc = unmarshalFields X p e1 tfields fts xs acc"
    for fts xs acc
    by (intro unmarshalFields_lookup_cong) simp
  have 1: "unmarshalDictionary X p (map fst ?kp) (map snd ?kp) t v = unmarshalDictionary X p ks vs t v"
    using kind info by (simp add: unmarshalDictionary.simps e1 e2 same)
  have 2: "length (structFields v') = length (structFields v)
           \<and> (\<forall>j. (\<forall>f\<in>set tfields. finfo_idx f = j \<longrightarrow> finfo_name f \<notin> set ks)
                  \<longrightarrow> structFields v' ! j = structFields v ! j)"
    if run: "unmarshalDictionary X p ks vs t v = Return (err, v')" for err v'
  proof -
    from run kind info e1 obtain ys where
      loop: "unmarshalFields X p e1 tfields (structTypeFields t) (structFields v) None = Return (err, ys)"
      and v': "v' = withFields v ys"
      by (auto simp: unmarshalDictionary.simps split: outcome.splits)
    note un = unmarshalFields_untouched [OF loop]
    have absent: "map_of e1 k = None" if "k \<notin> set ks" for k
    proof -
      have "k \<notin> fst ` set (rev (zip ks vs))"
        using that by (auto dest: set_zip_leftD)
      then show ?thesis using l1 by (simp add: map_of_eq_None_iff)
    qed
    have fields: "structFields v' = (case v of VStruct xs \<Rightarrow> ys | _ \<Rightarrow> [])"
      by (simp add: v' withFields_def structFields_def split: gval.splits)
    show ?thesis
    proof (cases v)
      case (VStruct xs)
      then show ?thesis using un absent fields by (auto simp: structFields_def)
    qed (use fields un in \<open>auto simp: structFields_def\<close>)
  qed
  from 1 2 show ?thesis by blast
qed


theorem record_ignores_unknown_keys_witness:
  "unmarshalDictionary exampleExtern strict
     (map fst (knownPairs [FieldInfo ''Name'' 0, FieldInfo ''Age'' 1] [''Age'', ''Extra'']
        [CfNumber 41 True, CfString ''zzz'']))
     (map snd (knownPairs [FieldInfo ''Name'' 0, FieldInfo ''Age'' 1] [''Age'', ''Extra'']
        [CfNumber 41 True, CfString ''zzz'']))
     personType (VStruct [VString ''old'', VInt 30])
   = Return (None, VStruct [VString ''old'', VInt 41])
   \<and> structFields (VStruct [VString ''old'', VInt 41]) ! 0
     = structFields (VStruct [VString ''old'', VInt 30]) ! 0"
proof -
  let ?ks = "[''Age'', ''Extra'']"
  let ?vs = "[CfNumber 41 True, CfString ''zzz'']"
  let ?v = "VStruct [VString ''old'', VInt 30]"
  let ?fs = "[FieldInfo ''Name'' 0, FieldInfo ''Age'' 1]"
  have kind: "Kind personType = KStruct" by (simp add: personType_def)
  have info: "getTypeInfo exampleExtern personType = Inr ?fs" by (simp add: exampleExtern_def)
  have len: "length ?ks \<le> length ?vs" by simp
  have run: "unmarshalDictionary exampleExtern strict ?ks ?vs personType ?v
      = Return (None, VStruct [VString ''old'', VInt 41])"
    by code_simp
  have absent: "\<forall>f\<in>set ?fs. finfo_idx f = 0 \<longrightarrow> finfo_name f \<notin> set ?ks" by simp
  from record_ignores_unknown_keys [OF kind info len, of strict ?v] run absent
  show ?thesis by simp
qed

end
